theory Spec2Isabelle
  imports Complex_Main "HOL-Library.Option_ord" "HOL-Library.Multiset"
begin

section \<open>The sandbox API: a read-only query layer over users and transactions\<close>

text \<open>
  The program is \<^verbatim>\<open>src/app.py\<close>: a set of HTTP handlers, each of which sends one fixed
  SQL text to a PostgreSQL connection and returns the rows. The embedding has three layers:
  \<^item> the two tables, as lists of rows in the order the store scans them;
  \<^item> the SQL operators the query texts use (\<open>WHERE\<close>, \<open>ORDER BY\<close>, \<open>LIMIT\<close>/\<open>OFFSET\<close>,
    \<open>GROUP BY\<close>, \<open>LEFT JOIN\<close>, the aggregates with their \<open>NULL\<close> results, \<open>COALESCE\<close>,
    \<open>ROUND\<close>, \<open>PERCENTILE_CONT\<close>), as list functions;
  \<^item> the handlers, as functions from the connection and the request parameters to a
    response or an error, together with the connection after the call.

  Conventions. Amounts are exact decimals (\<open>rat\<close>); the cast to a binary float on the way
  out is not modelled. Timestamps are seconds on the store's clock (\<open>int\<close>). SQL leaves the
  order of rows with equal sort keys, and the order of groups, to the store; the model fixes
  them (a stable sort of the scan order; groups in the order \<open>remdups\<close> leaves their keys),
  and no theorem below depends on that choice unless it says so. A column the response
  models declare non-optional is non-\<open>NULL\<close> in the tables; \<open>NULL\<close> appears only where the
  queries produce it (an outer join without a match, an aggregate over no value).
\<close>

subsection \<open>Rows and response models\<close>

type_synonym timestamp = int

record UserResponse =
  u_id :: int
  u_email :: string
  u_created :: timestamp
  u_updated :: timestamp

record TransactionResponse =
  t_id :: string
  t_user_id :: int
  t_amount :: rat
  t_currency :: string
  t_subid :: string
  t_pending :: bool
  t_paid :: bool
  t_created :: timestamp
  t_updated :: timestamp

record TransactionSummary =
  ts_total_amount :: rat
  ts_transaction_count :: int
  ts_average_amount :: rat
  ts_currency :: string

record UserStats =
  us_user_id :: int
  us_email :: string
  us_total_amount :: rat
  us_transaction_count :: int
  us_average_amount :: rat
  us_pending_count :: int
  us_paid_count :: int

record DailySummary =
  ds_date :: int
  ds_transaction_count :: int
  ds_total_amount :: rat

record TopUser =
  tu_user_id :: int
  tu_email :: string
  tu_total_amount :: rat
  tu_transaction_count :: int

record SuspiciousTransaction =
  sx_id :: string
  sx_user_id :: int
  sx_amount :: rat
  sx_reason :: string
  sx_created :: timestamp

text \<open>The row the top-users query produces, before the response model is applied: its
  total is \<open>SUM\<close> without \<open>COALESCE\<close>, so it can be \<open>NULL\<close>.\<close>

record top_users_row =
  r_user_id :: int
  r_email :: string
  r_total_amount :: "rat option"
  r_transaction_count :: int

subsection \<open>The store and the request-scoped connection\<close>

record database =
  users :: "UserResponse list"
  transactions :: "TransactionResponse list"
  now :: timestamp

text \<open>\<open>executed\<close> counts the statements sent through \<open>connection.execute\<close>.\<close>

record connection =
  conn_db :: database
  executed :: nat

definition execute :: "connection \<Rightarrow> (database \<Rightarrow> 'a) \<Rightarrow> 'a \<times> connection" where
  "execute conn q = (q (conn_db conn), conn\<lparr>executed := Suc (executed conn)\<rparr>)"

text \<open>\<open>result.first()\<close>: the first row, or \<open>None\<close> when there is no row.\<close>

definition first :: "'a list \<Rightarrow> 'a option" where
  "first rows = (case rows of [] \<Rightarrow> None | r # _ \<Rightarrow> Some r)"

subsection \<open>Errors and parameter validation\<close>

text \<open>\<open>RequestValidationError\<close> is the framework's 422 for a parameter outside its declared
  \<open>Query\<close> bounds, raised before the handler body runs; \<open>HTTPException\<close> is raised by the
  handlers themselves; \<open>ResponseValidationError\<close> is the framework's 500 for a returned row
  that does not fit the declared response model.\<close>

datatype error =
    RequestValidationError
  | HTTPException int string
  | ResponseValidationError

text \<open>\<open>Query(default, ge=..., le=...)\<close>: the supplied value, or the default, checked against
  the bounds that are declared.\<close>

definition Query :: "int \<Rightarrow> int option \<Rightarrow> int option \<Rightarrow> int option \<Rightarrow> error + int" where
  "Query dflt ge le supplied =
     (case supplied of
        None \<Rightarrow> Inr dflt
      | Some v \<Rightarrow>
          if (case ge of None \<Rightarrow> False | Some g \<Rightarrow> v < g) then Inl RequestValidationError
          else if (case le of None \<Rightarrow> False | Some l \<Rightarrow> l < v) then Inl RequestValidationError
          else Inr v)"

subsection \<open>SQL operators\<close>

definition sql_limit :: "int \<Rightarrow> 'a list \<Rightarrow> 'a list" where
  "sql_limit n rows = take (nat n) rows"

definition sql_offset :: "int \<Rightarrow> 'a list \<Rightarrow> 'a list" where
  "sql_offset n rows = drop (nat n) rows"

definition order_by_desc :: "('a \<Rightarrow> 'k::linordered_ab_group_add) \<Rightarrow> 'a list \<Rightarrow> 'a list" where
  "order_by_desc key rows = sort_key (\<lambda>r. - key r) rows"

text \<open>\<open>ORDER BY k DESC\<close> on a nullable column: PostgreSQL's default for \<open>DESC\<close> is
  \<open>NULLS FIRST\<close>. In the order on \<open>option\<close>, \<open>None\<close> is the least element.\<close>

definition order_by_desc_nullable :: "('a \<Rightarrow> rat option) \<Rightarrow> 'a list \<Rightarrow> 'a list" where
  "order_by_desc_nullable key rows = sort_key (\<lambda>r. map_option uminus (key r)) rows"

definition group_by :: "('a \<Rightarrow> 'k) \<Rightarrow> 'a list \<Rightarrow> ('k \<times> 'a list) list" where
  "group_by key rows = map (\<lambda>k. (k, filter (\<lambda>r. key r = k) rows)) (remdups (map key rows))"

text \<open>\<open>a LEFT JOIN b ON a.id = b.user_id\<close>: a row of \<open>a\<close> without a match is kept once,
  with every column of \<open>b\<close> \<open>NULL\<close>.\<close>

definition left_join ::
  "UserResponse list \<Rightarrow> TransactionResponse list \<Rightarrow> (UserResponse \<times> TransactionResponse option) list" where
  "left_join us ts =
     concat (map (\<lambda>u. let ms = filter (\<lambda>t. u_id u = t_user_id t) ts
                       in if ms = [] then [(u, None)] else map (\<lambda>t. (u, Some t)) ms) us)"

definition non_null :: "'a option list \<Rightarrow> 'a list" where
  "non_null vs = List.map_filter (\<lambda>v. v) vs"

text \<open>\<open>SUM\<close> and \<open>AVG\<close> skip \<open>NULL\<close>s and are \<open>NULL\<close> over no value; \<open>COUNT(col)\<close> counts
  the non-\<open>NULL\<close> values.\<close>

definition sql_sum :: "'a::monoid_add option list \<Rightarrow> 'a option" where
  "sql_sum vs = (if non_null vs = [] then None else Some (sum_list (non_null vs)))"

definition sql_avg :: "rat option list \<Rightarrow> rat option" where
  "sql_avg vs =
     (if non_null vs = [] then None
      else Some (sum_list (non_null vs) / of_nat (length (non_null vs))))"

definition sql_count :: "'a option list \<Rightarrow> int" where
  "sql_count vs = int (length (non_null vs))"

definition coalesce :: "'a option \<Rightarrow> 'a \<Rightarrow> 'a" where
  "coalesce v d = (case v of None \<Rightarrow> d | Some x \<Rightarrow> x)"

text \<open>\<open>ROUND(x::numeric, 2)\<close>: to two decimals, ties away from zero.\<close>

definition round2 :: "rat \<Rightarrow> rat" where
  "round2 x =
     (if 0 \<le> x then of_int \<lfloor>x * 100 + 1 / 2\<rfloor> / 100
      else - (of_int \<lfloor>- x * 100 + 1 / 2\<rfloor> / 100))"

text \<open>\<open>PERCENTILE_CONT(p) WITHIN GROUP (ORDER BY v)\<close>: \<open>NULL\<close> over no row; otherwise the
  value at position \<open>p * (n - 1)\<close> of the ascending values, interpolated linearly between
  the two neighbouring rows.\<close>

definition percentile_cont :: "rat \<Rightarrow> rat list \<Rightarrow> rat option" where
  "percentile_cont p vs =
     (if vs = [] then None
      else let s = sort vs;
               pos = p * of_nat (length s - 1);
               first_row = nat \<lfloor>pos\<rfloor>;
               second_row = nat \<lceil>pos\<rceil>
           in Some (s ! first_row + (pos - of_nat first_row) * (s ! second_row - s ! first_row)))"

subsection \<open>The queries\<close>

text \<open>Each definition is one SQL text of the source, read clause by clause in SQL's order
  of evaluation: \<open>FROM\<close>/\<open>JOIN\<close>, \<open>WHERE\<close>, \<open>GROUP BY\<close> with the aggregates of the select
  list, \<open>ORDER BY\<close>, then \<open>OFFSET\<close> and \<open>LIMIT\<close>.\<close>

definition sql_list_users :: "int \<Rightarrow> int \<Rightarrow> database \<Rightarrow> UserResponse list" where
  "sql_list_users lmt skip db = sql_limit lmt (sql_offset skip (sort_key u_id (users db)))"

definition sql_get_user :: "int \<Rightarrow> database \<Rightarrow> UserResponse list" where
  "sql_get_user uid db = filter (\<lambda>u. u_id u = uid) (users db)"

definition sql_get_user_transactions :: "int \<Rightarrow> int \<Rightarrow> database \<Rightarrow> TransactionResponse list" where
  "sql_get_user_transactions uid lmt db =
     sql_limit lmt (order_by_desc t_created (filter (\<lambda>t. t_user_id t = uid) (transactions db)))"

text \<open>The filtered listing builds its \<open>WHERE\<close> clause at run time: one conjunct for each
  filter that \<open>is not None\<close>, joined with \<open>AND\<close>, and no clause at all when the list of
  conjuncts is empty.\<close>

definition where_clauses :: "bool option \<Rightarrow> bool option \<Rightarrow> (TransactionResponse \<Rightarrow> bool) list" where
  "where_clauses pending paid =
     (case pending of None \<Rightarrow> [] | Some p \<Rightarrow> [\<lambda>t. t_pending t = p]) @
     (case paid of None \<Rightarrow> [] | Some p \<Rightarrow> [\<lambda>t. t_paid t = p])"

definition where_clause :: "('a \<Rightarrow> bool) list \<Rightarrow> 'a list \<Rightarrow> 'a list" where
  "where_clause clauses rows =
     (if clauses = [] then rows else filter (\<lambda>r. list_all (\<lambda>c. c r) clauses) rows)"

definition sql_list_transactions ::
  "bool option \<Rightarrow> bool option \<Rightarrow> int \<Rightarrow> int \<Rightarrow> database \<Rightarrow> TransactionResponse list" where
  "sql_list_transactions pending paid lmt skip db =
     sql_limit lmt (sql_offset skip
       (order_by_desc t_created (where_clause (where_clauses pending paid) (transactions db))))"

definition sql_transaction_summary :: "database \<Rightarrow> TransactionSummary list" where
  "sql_transaction_summary db =
     sql_limit 1
       (map (\<lambda>(currency, g).
               \<lparr>ts_total_amount = coalesce (sql_sum (map (\<lambda>t. Some (t_amount t)) g)) 0,
                ts_transaction_count = int (length g),
                ts_average_amount = round2 (coalesce (sql_avg (map (\<lambda>t. Some (t_amount t)) g)) 0),
                ts_currency = currency\<rparr>)
          (group_by t_currency (transactions db)))"

text \<open>\<open>CASE WHEN t.pending THEN 1 ELSE 0 END\<close>: a \<open>NULL\<close> condition takes the \<open>ELSE\<close>
  branch.\<close>

definition case_when :: "bool option \<Rightarrow> int" where
  "case_when c = (case c of Some True \<Rightarrow> 1 | _ \<Rightarrow> 0)"

definition sql_user_transaction_stats :: "int \<Rightarrow> database \<Rightarrow> UserStats list" where
  "sql_user_transaction_stats uid db =
     map (\<lambda>((id, email), g).
            \<lparr>us_user_id = uid,
             us_email = email,
             us_total_amount = coalesce (sql_sum (map (\<lambda>(u, t). map_option t_amount t) g)) 0,
             us_transaction_count = sql_count (map (\<lambda>(u, t). map_option t_id t) g),
             us_average_amount =
               round2 (coalesce (sql_avg (map (\<lambda>(u, t). map_option t_amount t) g)) 0),
             us_pending_count =
               coalesce (sql_sum (map (\<lambda>(u, t). Some (case_when (map_option t_pending t))) g)) 0,
             us_paid_count =
               coalesce (sql_sum (map (\<lambda>(u, t). Some (case_when (map_option t_paid t))) g)) 0\<rparr>)
       (group_by (\<lambda>(u, t). (u_id u, u_email u))
          (filter (\<lambda>(u, t). u_id u = uid) (left_join (users db) (transactions db))))"

text \<open>The daily summary: \<open>DATE(created)\<close> is the day number \<open>created div 86400\<close>; its
  rendering as text is left out (between the years 0000 and 9999 the text orders as the day
  number does). Every group holds a row, so its \<open>SUM\<close> is not \<open>NULL\<close>.\<close>

definition sql_daily_transaction_summary :: "int \<Rightarrow> database \<Rightarrow> DailySummary list" where
  "sql_daily_transaction_summary days db =
     order_by_desc ds_date
       (map (\<lambda>(d, g).
               \<lparr>ds_date = d,
                ds_transaction_count = int (length g),
                ds_total_amount = round2 (sum_list (map t_amount g))\<rparr>)
          (group_by (\<lambda>t. t_created t div 86400)
             (filter (\<lambda>t. now db - 86400 * days \<le> t_created t) (transactions db))))"

definition sql_get_pending_transactions :: "int \<Rightarrow> database \<Rightarrow> TransactionResponse list" where
  "sql_get_pending_transactions lmt db =
     sql_limit lmt (order_by_desc t_created (filter (\<lambda>t. t_pending t = True) (transactions db)))"

definition sql_top_users_by_volume :: "int \<Rightarrow> database \<Rightarrow> top_users_row list" where
  "sql_top_users_by_volume lmt db =
     sql_limit lmt
       (order_by_desc_nullable r_total_amount
          (map (\<lambda>((id, email), g).
                  \<lparr>r_user_id = id,
                   r_email = email,
                   r_total_amount = map_option round2 (sql_sum (map (\<lambda>(u, t). map_option t_amount t) g)),
                   r_transaction_count = sql_count (map (\<lambda>(u, t). map_option t_id t) g)\<rparr>)
             (group_by (\<lambda>(u, t). (u_id u, u_email u)) (left_join (users db) (transactions db)))))"

definition reason :: string where
  "reason = ''Large transaction (>90th percentile)''"

text \<open>A comparison with a \<open>NULL\<close> subquery result is not true, so the \<open>WHERE\<close> keeps no
  row when the table is empty.\<close>

definition flagged :: "TransactionResponse \<Rightarrow> SuspiciousTransaction" where
  "flagged t =
     \<lparr>sx_id = t_id t, sx_user_id = t_user_id t, sx_amount = t_amount t,
      sx_reason = reason, sx_created = t_created t\<rparr>"

definition sql_suspicious_transactions :: "int \<Rightarrow> database \<Rightarrow> SuspiciousTransaction list" where
  "sql_suspicious_transactions lmt db =
     sql_limit lmt
       (order_by_desc sx_amount
          (map flagged
             (case percentile_cont (9 / 10) (map t_amount (transactions db)) of
                None \<Rightarrow> []
              | Some p \<Rightarrow> filter (\<lambda>t. p < t_amount t) (transactions db))))"

definition sql_unpaid_transactions :: "int \<Rightarrow> database \<Rightarrow> TransactionResponse list" where
  "sql_unpaid_transactions lmt db =
     sql_limit lmt
       (order_by_desc t_created
          (filter (\<lambda>t. t_pending t = False \<and> t_paid t = False) (transactions db)))"

subsection \<open>The handlers\<close>

text \<open>A handler checks its \<open>Query\<close> parameters in the order of its signature, then sends its
  one statement. \<open>None\<close> for a parameter is a request that does not supply it.\<close>

definition list_users ::
  "connection \<Rightarrow> int option \<Rightarrow> int option \<Rightarrow> (error + UserResponse list) \<times> connection" where
  "list_users conn skip_q limit_q =
     (case Query 0 (Some 0) None skip_q of
        Inl e \<Rightarrow> (Inl e, conn)
      | Inr skip \<Rightarrow>
          (case Query 10 (Some 1) (Some 100) limit_q of
             Inl e \<Rightarrow> (Inl e, conn)
           | Inr lmt \<Rightarrow>
               (case execute conn (sql_list_users lmt skip) of
                  (result, conn') \<Rightarrow> (Inr result, conn'))))"

definition get_user :: "connection \<Rightarrow> int \<Rightarrow> (error + UserResponse) \<times> connection" where
  "get_user conn user_id =
     (case execute conn (sql_get_user user_id) of
        (result, conn') \<Rightarrow>
          (case first result of
             None \<Rightarrow> (Inl (HTTPException 404 ''User not found''), conn')
           | Some user \<Rightarrow> (Inr user, conn')))"

definition get_user_transactions ::
  "connection \<Rightarrow> int \<Rightarrow> int option \<Rightarrow> (error + TransactionResponse list) \<times> connection" where
  "get_user_transactions conn user_id limit_q =
     (case Query 50 (Some 1) (Some 500) limit_q of
        Inl e \<Rightarrow> (Inl e, conn)
      | Inr lmt \<Rightarrow>
          (case execute conn (sql_get_user_transactions user_id lmt) of
             (result, conn') \<Rightarrow> (Inr result, conn')))"

definition list_transactions ::
  "connection \<Rightarrow> int option \<Rightarrow> int option \<Rightarrow> bool option \<Rightarrow> bool option
     \<Rightarrow> (error + TransactionResponse list) \<times> connection" where
  "list_transactions conn skip_q limit_q pending paid =
     (case Query 0 (Some 0) None skip_q of
        Inl e \<Rightarrow> (Inl e, conn)
      | Inr skip \<Rightarrow>
          (case Query 50 (Some 1) (Some 500) limit_q of
             Inl e \<Rightarrow> (Inl e, conn)
           | Inr lmt \<Rightarrow>
               (case execute conn (sql_list_transactions pending paid lmt skip) of
                  (result, conn') \<Rightarrow> (Inr result, conn'))))"

definition transaction_summary :: "connection \<Rightarrow> (error + TransactionSummary) \<times> connection" where
  "transaction_summary conn =
     (case execute conn sql_transaction_summary of
        (result, conn') \<Rightarrow>
          (case first result of
             None \<Rightarrow> (Inl (HTTPException 500 ''Failed to fetch summary''), conn')
           | Some row \<Rightarrow> (Inr row, conn')))"

definition user_transaction_stats :: "connection \<Rightarrow> int \<Rightarrow> (error + UserStats) \<times> connection" where
  "user_transaction_stats conn user_id =
     (case execute conn (sql_user_transaction_stats user_id) of
        (result, conn') \<Rightarrow>
          (case first result of
             None \<Rightarrow> (Inl (HTTPException 404 ''User not found''), conn')
           | Some row \<Rightarrow> (Inr row, conn')))"

definition daily_transaction_summary ::
  "connection \<Rightarrow> int option \<Rightarrow> (error + DailySummary list) \<times> connection" where
  "daily_transaction_summary conn days_q =
     (case Query 7 (Some 1) (Some 365) days_q of
        Inl e \<Rightarrow> (Inl e, conn)
      | Inr days \<Rightarrow>
          (case execute conn (sql_daily_transaction_summary days) of
             (result, conn') \<Rightarrow> (Inr result, conn')))"

definition get_pending_transactions ::
  "connection \<Rightarrow> int option \<Rightarrow> (error + TransactionResponse list) \<times> connection" where
  "get_pending_transactions conn limit_q =
     (case Query 50 (Some 1) (Some 500) limit_q of
        Inl e \<Rightarrow> (Inl e, conn)
      | Inr lmt \<Rightarrow>
          (case execute conn (sql_get_pending_transactions lmt) of
             (result, conn') \<Rightarrow> (Inr result, conn')))"

text \<open>\<open>response_model=List[TopUser]\<close>: \<open>total_amount: float\<close> does not admit \<open>None\<close>, and one
  row that fails fails the response.\<close>

definition as_TopUser :: "top_users_row \<Rightarrow> TopUser option" where
  "as_TopUser r =
     (case r_total_amount r of
        None \<Rightarrow> None
      | Some a \<Rightarrow>
          Some \<lparr>tu_user_id = r_user_id r, tu_email = r_email r, tu_total_amount = a,
                tu_transaction_count = r_transaction_count r\<rparr>)"

fun response_model :: "('a \<Rightarrow> 'b option) \<Rightarrow> 'a list \<Rightarrow> error + 'b list" where
  "response_model v [] = Inr []"
| "response_model v (r # rs) =
     (case v r of
        None \<Rightarrow> Inl ResponseValidationError
      | Some x \<Rightarrow>
          (case response_model v rs of Inl e \<Rightarrow> Inl e | Inr xs \<Rightarrow> Inr (x # xs)))"

definition top_users_by_volume ::
  "connection \<Rightarrow> int option \<Rightarrow> (error + TopUser list) \<times> connection" where
  "top_users_by_volume conn limit_q =
     (case Query 10 (Some 1) (Some 100) limit_q of
        Inl e \<Rightarrow> (Inl e, conn)
      | Inr lmt \<Rightarrow>
          (case execute conn (sql_top_users_by_volume lmt) of
             (result, conn') \<Rightarrow> (response_model as_TopUser result, conn')))"

definition suspicious_transactions ::
  "connection \<Rightarrow> int option \<Rightarrow> (error + SuspiciousTransaction list) \<times> connection" where
  "suspicious_transactions conn limit_q =
     (case Query 50 (Some 1) (Some 500) limit_q of
        Inl e \<Rightarrow> (Inl e, conn)
      | Inr lmt \<Rightarrow>
          (case execute conn (sql_suspicious_transactions lmt) of
             (result, conn') \<Rightarrow> (Inr result, conn')))"

definition unpaid_transactions ::
  "connection \<Rightarrow> int option \<Rightarrow> (error + TransactionResponse list) \<times> connection" where
  "unpaid_transactions conn limit_q =
     (case Query 50 (Some 1) (Some 500) limit_q of
        Inl e \<Rightarrow> (Inl e, conn)
      | Inr lmt \<Rightarrow>
          (case execute conn (sql_unpaid_transactions lmt) of
             (result, conn') \<Rightarrow> (Inr result, conn')))"

subsection \<open>Datasets for the examples\<close>

text \<open>\<open>example_db\<close>: two users, of whom \<open>alice\<close> has no transaction; four transactions of
  \<open>bob\<close>, two of them confirmed and unpaid.\<close>

definition txn ::
  "string \<Rightarrow> int \<Rightarrow> rat \<Rightarrow> bool \<Rightarrow> bool \<Rightarrow> timestamp \<Rightarrow> TransactionResponse" where
  "txn i uid a pending paid created =
     \<lparr>t_id = i, t_user_id = uid, t_amount = a, t_currency = ''USD'', t_subid = ''sub'',
      t_pending = pending, t_paid = paid, t_created = created, t_updated = created\<rparr>"

definition alice :: UserResponse where
  "alice = \<lparr>u_id = 1, u_email = ''alice@example.com'', u_created = 0, u_updated = 0\<rparr>"

definition bob :: UserResponse where
  "bob = \<lparr>u_id = 2, u_email = ''bob@example.com'', u_created = 1, u_updated = 1\<rparr>"

definition example_db :: database where
  "example_db =
     \<lparr>users = [bob, alice],
      transactions =
        [txn ''a'' 2 10 False True 5, txn ''b'' 2 20 True False 7,
         txn ''c'' 2 30 False False 9, txn ''d'' 2 40 False False 11],
      now = 100\<rparr>"

definition example_conn :: connection where
  "example_conn = \<lparr>conn_db = example_db, executed = 0\<rparr>"

text \<open>\<open>empty_conn\<close>: a user, and no transaction at all.\<close>

definition empty_conn :: connection where
  "empty_conn = \<lparr>conn_db = \<lparr>users = [alice], transactions = [], now = 100\<rparr>, executed = 0\<rparr>"

text \<open>\<open>orphan_conn\<close>: one transaction, whose \<open>user_id\<close> 5 is the id of no user.\<close>

definition orphan_conn :: connection where
  "orphan_conn =
     \<lparr>conn_db = \<lparr>users = [alice], transactions = [txn ''o'' 5 10 False True 5], now = 100\<rparr>,
      executed = 0\<rparr>"




text \<open>\<open>tied_conn\<close> and \<open>tied_conn'\<close>: the same two transactions, created in the same second,
  in the two orders in which the store can scan them.\<close>

definition tied_conn :: connection where
  "tied_conn =
     \<lparr>conn_db =
        \<lparr>users = [alice],
         transactions = [txn ''x'' 1 10 False False 5, txn ''y'' 1 20 False False 5],
         now = 100\<rparr>,
      executed = 0\<rparr>"

definition tied_conn' :: connection where
  "tied_conn' =
     \<lparr>conn_db =
        \<lparr>users = [alice],
         transactions = [txn ''y'' 1 20 False False 5, txn ''x'' 1 10 False False 5],
         now = 100\<rparr>,
      executed = 0\<rparr>"

text \<open>\<open>rescanned_conn\<close>: the rows of \<open>example_db\<close>, scanned in another order.\<close>

definition rescanned_conn :: connection where
  "rescanned_conn =
     \<lparr>conn_db =
        \<lparr>users = [alice, bob],
         transactions =
           [txn ''d'' 2 40 False False 11, txn ''b'' 2 20 True False 7,
            txn ''a'' 2 10 False True 5, txn ''c'' 2 30 False False 9],
         now = 100\<rparr>,
      executed = 0\<rparr>"

section \<open>Basic facts about the operators\<close>

lemma Query_None: "Query d ge le None = Inr d"
  by (simp add: Query_def)

lemma Query_Some_bounded:
  "Query d (Some lo) (Some hi) (Some v) =
     (if v < lo \<or> hi < v then Inl RequestValidationError else Inr v)"
  by (simp add: Query_def)

lemma Query_Some_lower:
  "Query d (Some lo) None (Some v) = (if v < lo then Inl RequestValidationError else Inr v)"
  by (simp add: Query_def)

lemmas Query_simps = Query_None Query_Some_bounded Query_Some_lower

lemma Query_bounded_Inr:
  assumes "Query d (Some lo) (Some hi) q = Inr v" and "lo \<le> d" and "d \<le> hi"
  shows "lo \<le> v \<and> v \<le> hi"
  using assms by (cases q) (auto simp: Query_simps split: if_splits)

lemma set_order_by_desc: "set (order_by_desc k rows) = set rows"
  by (simp add: order_by_desc_def)

lemma mset_order_by_desc: "mset (order_by_desc k rows) = mset rows"
  by (simp add: order_by_desc_def)

lemma length_order_by_desc: "length (order_by_desc k rows) = length rows"
  by (simp add: order_by_desc_def)

lemma sorted_order_by_desc: "sorted_wrt (\<lambda>a b. k b \<le> k a) (order_by_desc k rows)"
proof -
  have "sorted (map (\<lambda>r. - k r) (order_by_desc k rows))"
    by (simp add: order_by_desc_def)
  then show ?thesis
    by (simp add: sorted_map)
qed

lemma sorted_sql_limit: "sorted_wrt R rows \<Longrightarrow> sorted_wrt R (sql_limit n rows)"
  by (simp add: sql_limit_def sorted_wrt_take)

lemma sorted_sql_offset: "sorted_wrt R rows \<Longrightarrow> sorted_wrt R (sql_offset n rows)"
  by (simp add: sql_offset_def sorted_wrt_drop)

lemma set_sql_limit: "set (sql_limit n rows) \<subseteq> set rows"
  by (simp add: sql_limit_def set_take_subset)

lemma set_sql_offset: "set (sql_offset n rows) \<subseteq> set rows"
  by (simp add: sql_offset_def set_drop_subset)

lemma sql_limit_all: "length rows \<le> nat n \<Longrightarrow> sql_limit n rows = rows"
  by (simp add: sql_limit_def)

lemma where_clause_filter:
  "where_clause (where_clauses pending paid) rows =
     filter (\<lambda>t. (case pending of None \<Rightarrow> True | Some p \<Rightarrow> t_pending t = p) \<and>
                   (case paid of None \<Rightarrow> True | Some p \<Rightarrow> t_paid t = p)) rows"
  by (cases pending; cases paid) (simp_all add: where_clause_def where_clauses_def)

text \<open>With pairwise different sort keys an ordered listing does not depend on the order in
  which the store scans the table.\<close>

lemma sort_key_scan_order:
  assumes "mset xs = mset ys" and "distinct (map f xs)"
  shows "sort_key f xs = sort_key f ys"
proof -
  have s: "set xs = set ys"
    using assms(1) by (rule mset_eq_setD)
  have "mset (map f xs) = mset (map f ys)"
    using assms(1) by simp
  then have d: "distinct (map f ys)"
    using assms(2) by (metis mset_eq_imp_distinct_iff)
  have inj: "inj_on f (set xs)"
    using assms(2) by (simp add: distinct_map)
  have "map f (sort_key f xs) = map f (sort_key f ys)"
  proof (rule sorted_distinct_set_unique)
    show "distinct (map f (sort_key f xs))"
      using assms(2) by (simp add: distinct_map)
    show "distinct (map f (sort_key f ys))"
      using d by (simp add: distinct_map)
    show "set (map f (sort_key f xs)) = set (map f (sort_key f ys))"
      using s by simp
  qed simp_all
  moreover have "inj_on f (set (sort_key f xs) \<union> set (sort_key f ys))"
    using inj s by simp
  ultimately show ?thesis
    by (rule map_inj_on)
qed

lemma order_by_desc_scan_order:
  assumes "mset xs = mset ys" and "distinct (map k xs)"
  shows "order_by_desc k xs = order_by_desc k ys"
proof -
  have "inj_on k (set xs)" and "distinct xs"
    using assms(2) by (simp_all add: distinct_map)
  then have "distinct (map (\<lambda>r. - k r) xs)"
    by (auto simp: distinct_map inj_on_def)
  then show ?thesis
    unfolding order_by_desc_def using assms(1) by (intro sort_key_scan_order)
qed

section \<open>Listings\<close>

lemma list_users_valid:
  assumes "Query 0 (Some 0) None skip_q = Inr skip"
    and "Query 10 (Some 1) (Some 100) limit_q = Inr lmt"
  shows "list_users conn skip_q limit_q =
           (Inr (sql_list_users lmt skip (conn_db conn)), conn\<lparr>executed := Suc (executed conn)\<rparr>)"
  using assms by (simp add: list_users_def execute_def)

lemma list_transactions_valid:
  assumes "Query 0 (Some 0) None skip_q = Inr skip"
    and "Query 50 (Some 1) (Some 500) limit_q = Inr lmt"
  shows "list_transactions conn skip_q limit_q pending paid =
           (Inr (sql_list_transactions pending paid lmt skip (conn_db conn)),
            conn\<lparr>executed := Suc (executed conn)\<rparr>)"
  using assms by (simp add: list_transactions_def execute_def)

lemma get_user_transactions_valid:
  assumes "Query 50 (Some 1) (Some 500) limit_q = Inr lmt"
  shows "get_user_transactions conn uid limit_q =
           (Inr (sql_get_user_transactions uid lmt (conn_db conn)),
            conn\<lparr>executed := Suc (executed conn)\<rparr>)"
  using assms by (simp add: get_user_transactions_def execute_def)

lemma get_pending_transactions_valid:
  assumes "Query 50 (Some 1) (Some 500) limit_q = Inr lmt"
  shows "get_pending_transactions conn limit_q =
           (Inr (sql_get_pending_transactions lmt (conn_db conn)),
            conn\<lparr>executed := Suc (executed conn)\<rparr>)"
  using assms by (simp add: get_pending_transactions_def execute_def)

lemma unpaid_transactions_valid:
  assumes "Query 50 (Some 1) (Some 500) limit_q = Inr lmt"
  shows "unpaid_transactions conn limit_q =
           (Inr (sql_unpaid_transactions lmt (conn_db conn)),
            conn\<lparr>executed := Suc (executed conn)\<rparr>)"
  using assms by (simp add: unpaid_transactions_def execute_def)

text \<open>A page of rows in some order: at most \<open>limit\<close> rows, in that order.\<close>

lemma page_bounded: "0 \<le> lmt \<Longrightarrow> int (length (take (nat lmt) rows)) \<le> lmt"
  by simp

lemma page_sorted: "sorted_wrt R rows \<Longrightarrow> sorted_wrt R (take n (drop m rows))"
  by (simp add: sorted_wrt_take sorted_wrt_drop)

lemma list_users_page:
  assumes "Query 0 (Some 0) None skip_q = Inr skip"
    and "Query 10 (Some 1) (Some 100) limit_q = Inr lmt"
  shows "\<exists>rows. fst (list_users conn skip_q limit_q) = Inr rows
           \<and> rows = take (nat lmt) (drop (nat skip) (sort_key u_id (users (conn_db conn))))
           \<and> int (length rows) \<le> lmt
           \<and> sorted (map u_id rows)"
proof -
  let ?rows = "take (nat lmt) (drop (nat skip) (sort_key u_id (users (conn_db conn))))"
  have "1 \<le> lmt \<and> lmt \<le> 100"
    using assms(2) by (rule Query_bounded_Inr) simp_all
  then have len: "int (length ?rows) \<le> lmt"
    by (intro page_bounded) simp
  have "sorted_wrt (\<lambda>a b. u_id a \<le> u_id b) (sort_key u_id (users (conn_db conn)))"
    using sorted_sort_key [of u_id "users (conn_db conn)"] by (simp add: sorted_map)
  then have "sorted_wrt (\<lambda>a b. u_id a \<le> u_id b) ?rows"
    by (rule page_sorted)
  then have srt: "sorted (map u_id ?rows)"
    by (simp add: sorted_map)
  have "fst (list_users conn skip_q limit_q) = Inr ?rows"
    by (simp add: list_users_valid [OF assms] sql_list_users_def sql_limit_def sql_offset_def)
  with len srt show ?thesis
    by (intro exI [of _ ?rows] conjI refl)
qed

lemma list_transactions_page:
  assumes "Query 0 (Some 0) None skip_q = Inr skip"
    and "Query 50 (Some 1) (Some 500) limit_q = Inr lmt"
  shows "\<exists>rows. fst (list_transactions conn skip_q limit_q pending paid) = Inr rows
           \<and> rows = take (nat lmt) (drop (nat skip)
                (order_by_desc t_created
                   (where_clause (where_clauses pending paid) (transactions (conn_db conn)))))
           \<and> int (length rows) \<le> lmt
           \<and> sorted_wrt (\<lambda>a b. t_created b \<le> t_created a) rows"
proof -
  let ?rows = "take (nat lmt) (drop (nat skip)
                (order_by_desc t_created
                   (where_clause (where_clauses pending paid) (transactions (conn_db conn)))))"
  have "1 \<le> lmt \<and> lmt \<le> 500"
    using assms(2) by (rule Query_bounded_Inr) simp_all
  then have len: "int (length ?rows) \<le> lmt"
    by (intro page_bounded) simp
  have srt: "sorted_wrt (\<lambda>a b. t_created b \<le> t_created a) ?rows"
    by (intro page_sorted sorted_order_by_desc)
  have "fst (list_transactions conn skip_q limit_q pending paid) = Inr ?rows"
    by (simp add: list_transactions_valid [OF assms] sql_list_transactions_def sql_limit_def
        sql_offset_def)
  with len srt show ?thesis
    by (intro exI [of _ ?rows] conjI refl)
qed

text \<open>The three listings without \<open>skip\<close> differ in their \<open>WHERE\<close> clause only.\<close>

lemma limited_page:
  assumes "Query 50 (Some 1) (Some 500) limit_q = Inr lmt"
    and "result = Inr (sql_limit lmt (order_by_desc t_created (filter P txs)))"
  shows "\<exists>rows. result = Inr rows
           \<and> rows = take (nat lmt) (order_by_desc t_created (filter P txs))
           \<and> int (length rows) \<le> lmt
           \<and> sorted_wrt (\<lambda>a b. t_created b \<le> t_created a) rows"
proof -
  let ?rows = "take (nat lmt) (order_by_desc t_created (filter P txs))"
  have "1 \<le> lmt \<and> lmt \<le> 500"
    using assms(1) by (rule Query_bounded_Inr) simp_all
  then have len: "int (length ?rows) \<le> lmt"
    by (intro page_bounded) simp
  have srt: "sorted_wrt (\<lambda>a b. t_created b \<le> t_created a) ?rows"
    by (intro sorted_wrt_take sorted_order_by_desc)
  have "result = Inr ?rows"
    by (simp add: assms(2) sql_limit_def)
  with len srt show ?thesis
    by (intro exI [of _ ?rows] conjI refl)
qed

lemma get_user_transactions_page:
  assumes "Query 50 (Some 1) (Some 500) limit_q = Inr lmt"
  shows "\<exists>rows. fst (get_user_transactions conn uid limit_q) = Inr rows
           \<and> rows = take (nat lmt) (order_by_desc t_created
                (filter (\<lambda>t. t_user_id t = uid) (transactions (conn_db conn))))
           \<and> int (length rows) \<le> lmt
           \<and> sorted_wrt (\<lambda>a b. t_created b \<le> t_created a) rows"
  using assms
  by (rule limited_page)
    (simp add: get_user_transactions_valid [OF assms] sql_get_user_transactions_def)

lemma get_pending_transactions_page:
  assumes "Query 50 (Some 1) (Some 500) limit_q = Inr lmt"
  shows "\<exists>rows. fst (get_pending_transactions conn limit_q) = Inr rows
           \<and> rows = take (nat lmt) (order_by_desc t_created
                (filter (\<lambda>t. t_pending t = True) (transactions (conn_db conn))))
           \<and> int (length rows) \<le> lmt
           \<and> sorted_wrt (\<lambda>a b. t_created b \<le> t_created a) rows"
  using assms
  by (rule limited_page)
    (simp add: get_pending_transactions_valid [OF assms] sql_get_pending_transactions_def)

lemma unpaid_transactions_page:
  assumes "Query 50 (Some 1) (Some 500) limit_q = Inr lmt"
  shows "\<exists>rows. fst (unpaid_transactions conn limit_q) = Inr rows
           \<and> rows = take (nat lmt) (order_by_desc t_created
                (filter (\<lambda>t. t_pending t = False \<and> t_paid t = False) (transactions (conn_db conn))))
           \<and> int (length rows) \<le> lmt
           \<and> sorted_wrt (\<lambda>a b. t_created b \<le> t_created a) rows"
  using assms
  by (rule limited_page)
    (simp add: unpaid_transactions_valid [OF assms] sql_unpaid_transactions_def)

text \<open>The same rows scanned in another order: with pairwise different sort keys every
  listing returns the same page.\<close>

lemma filter_scan_order:
  assumes "mset xs = mset ys" and "distinct (map k xs)"
  shows "order_by_desc k (filter P xs) = order_by_desc k (filter P ys)"
proof (rule order_by_desc_scan_order)
  show "mset (filter P xs) = mset (filter P ys)"
    using assms(1) by simp
  show "distinct (map k (filter P xs))"
    using assms(2) by (rule distinct_map_filter)
qed

lemma list_users_scan_order:
  assumes "mset (users (conn_db conn')) = mset (users (conn_db conn))"
    and "distinct (map u_id (users (conn_db conn)))"
  shows "fst (list_users conn' skip_q limit_q) = fst (list_users conn skip_q limit_q)"
proof -
  have "sort_key u_id (users (conn_db conn)) = sort_key u_id (users (conn_db conn'))"
    using assms by (intro sort_key_scan_order) simp_all
  then show ?thesis
    by (simp add: list_users_def execute_def sql_list_users_def split: sum.splits)
qed

lemma transaction_listings_scan_order:
  assumes "mset (transactions (conn_db conn')) = mset (transactions (conn_db conn))"
    and "distinct (map t_created (transactions (conn_db conn)))"
  shows "fst (list_transactions conn' skip_q limit_q pending paid)
           = fst (list_transactions conn skip_q limit_q pending paid)"
    and "fst (get_user_transactions conn' uid limit_q) = fst (get_user_transactions conn uid limit_q)"
    and "fst (get_pending_transactions conn' limit_q) = fst (get_pending_transactions conn limit_q)"
    and "fst (unpaid_transactions conn' limit_q) = fst (unpaid_transactions conn limit_q)"
proof -
  have eq: "order_by_desc t_created (filter P (transactions (conn_db conn)))
              = order_by_desc t_created (filter P (transactions (conn_db conn')))" for P
    using assms by (intro filter_scan_order) simp_all
  show "fst (list_transactions conn' skip_q limit_q pending paid)
           = fst (list_transactions conn skip_q limit_q pending paid)"
    by (simp add: list_transactions_def execute_def sql_list_transactions_def
        where_clause_filter eq split: sum.splits)
  show "fst (get_user_transactions conn' uid limit_q) = fst (get_user_transactions conn uid limit_q)"
    by (simp add: get_user_transactions_def execute_def sql_get_user_transactions_def eq
        split: sum.splits)
  show "fst (get_pending_transactions conn' limit_q) = fst (get_pending_transactions conn limit_q)"
    by (simp add: get_pending_transactions_def execute_def sql_get_pending_transactions_def eq
        split: sum.splits)
  show "fst (unpaid_transactions conn' limit_q) = fst (unpaid_transactions conn limit_q)"
    by (simp add: unpaid_transactions_def execute_def sql_unpaid_transactions_def eq
        split: sum.splits)
qed

text \<open>
  C8 (as the code has it). For valid (or omitted) \<open>skip\<close> and \<open>limit\<close>, each of the five
  listings is a page of its rows in the declared order, cut after the ordering: the users
  listing is \<open>take limit (drop skip _)\<close> of the users by ascending \<open>id\<close>; the transactions
  listing is the same page of the rows that pass the filters, by descending \<open>created\<close>; the
  per-user, pending and unpaid listings, which take no \<open>skip\<close>, are \<open>take limit _\<close> of their
  rows by descending \<open>created\<close>. A page has at most \<open>limit\<close> rows and is itself in the
  declared order. The page is determined by the rows of the table, whatever the order in
  which the store scans them, when no two rows have the same sort key: the users listing
  when the ids are pairwise different, the four transaction listings when no two
  transactions have the same \<open>created\<close>. The queries order by \<open>created\<close> alone, so the order
  among transactions created at the same instant is the store's choice.
\<close>

theorem listings_paginate_in_declared_order:
  assumes "Query 0 (Some 0) None skip_q = Inr skip"
    and "Query 10 (Some 1) (Some 100) limit_q = Inr lmt"
    and "Query 50 (Some 1) (Some 500) limit_q' = Inr lmt'"
  shows "(\<exists>rows. fst (list_users conn skip_q limit_q) = Inr rows
            \<and> rows = take (nat lmt) (drop (nat skip) (sort_key u_id (users (conn_db conn))))
            \<and> int (length rows) \<le> lmt
            \<and> sorted (map u_id rows))
       \<and> (\<exists>rows. fst (list_transactions conn skip_q limit_q' pending paid) = Inr rows
            \<and> rows = take (nat lmt') (drop (nat skip)
                 (order_by_desc t_created
                    (where_clause (where_clauses pending paid) (transactions (conn_db conn)))))
            \<and> int (length rows) \<le> lmt'
            \<and> sorted_wrt (\<lambda>a b. t_created b \<le> t_created a) rows)
       \<and> (\<exists>rows. fst (get_user_transactions conn uid limit_q') = Inr rows
            \<and> rows = take (nat lmt') (order_by_desc t_created
                 (filter (\<lambda>t. t_user_id t = uid) (transactions (conn_db conn))))
            \<and> int (length rows) \<le> lmt'
            \<and> sorted_wrt (\<lambda>a b. t_created b \<le> t_created a) rows)
       \<and> (\<exists>rows. fst (get_pending_transactions conn limit_q') = Inr rows
            \<and> rows = take (nat lmt') (order_by_desc t_created
                 (filter (\<lambda>t. t_pending t = True) (transactions (conn_db conn))))
            \<and> int (length rows) \<le> lmt'
            \<and> sorted_wrt (\<lambda>a b. t_created b \<le> t_created a) rows)
       \<and> (\<exists>rows. fst (unpaid_transactions conn limit_q') = Inr rows
            \<and> rows = take (nat lmt') (order_by_desc t_created
                 (filter (\<lambda>t. t_pending t = False \<and> t_paid t = False)
                    (transactions (conn_db conn))))
            \<and> int (length rows) \<le> lmt'
            \<and> sorted_wrt (\<lambda>a b. t_created b \<le> t_created a) rows)
       \<and> (mset (users (conn_db conn')) = mset (users (conn_db conn))
            \<and> distinct (map u_id (users (conn_db conn))) \<longrightarrow>
            fst (list_users conn' skip_q limit_q) = fst (list_users conn skip_q limit_q))
       \<and> (mset (transactions (conn_db conn')) = mset (transactions (conn_db conn))
            \<and> distinct (map t_created (transactions (conn_db conn))) \<longrightarrow>
            fst (list_transactions conn' skip_q limit_q' pending paid)
              = fst (list_transactions conn skip_q limit_q' pending paid)
          \<and> fst (get_user_transactions conn' uid limit_q')
              = fst (get_user_transactions conn uid limit_q')
          \<and> fst (get_pending_transactions conn' limit_q')
              = fst (get_pending_transactions conn limit_q')
          \<and> fst (unpaid_transactions conn' limit_q')
              = fst (unpaid_transactions conn limit_q'))"
proof (intro conjI impI)
  show "\<exists>rows. fst (list_users conn skip_q limit_q) = Inr rows
            \<and> rows = take (nat lmt) (drop (nat skip) (sort_key u_id (users (conn_db conn))))
            \<and> int (length rows) \<le> lmt
            \<and> sorted (map u_id rows)"
    using assms(1,2) by (rule list_users_page)
  show "\<exists>rows. fst (list_transactions conn skip_q limit_q' pending paid) = Inr rows
            \<and> rows = take (nat lmt') (drop (nat skip)
                 (order_by_desc t_created
                    (where_clause (where_clauses pending paid) (transactions (conn_db conn)))))
            \<and> int (length rows) \<le> lmt'
            \<and> sorted_wrt (\<lambda>a b. t_created b \<le> t_created a) rows"
    using assms(1,3) by (rule list_transactions_page)
  show "\<exists>rows. fst (get_user_transactions conn uid limit_q') = Inr rows
            \<and> rows = take (nat lmt') (order_by_desc t_created
                 (filter (\<lambda>t. t_user_id t = uid) (transactions (conn_db conn))))
            \<and> int (length rows) \<le> lmt'
            \<and> sorted_wrt (\<lambda>a b. t_created b \<le> t_created a) rows"
    using assms(3) by (rule get_user_transactions_page)
  show "\<exists>rows. fst (get_pending_transactions conn limit_q') = Inr rows
            \<and> rows = take (nat lmt') (order_by_desc t_created
                 (filter (\<lambda>t. t_pending t = True) (transactions (conn_db conn))))
            \<and> int (length rows) \<le> lmt'
            \<and> sorted_wrt (\<lambda>a b. t_created b \<le> t_created a) rows"
    using assms(3) by (rule get_pending_transactions_page)
  show "\<exists>rows. fst (unpaid_transactions conn limit_q') = Inr rows
            \<and> rows = take (nat lmt') (order_by_desc t_created
                 (filter (\<lambda>t. t_pending t = False \<and> t_paid t = False)
                    (transactions (conn_db conn))))
            \<and> int (length rows) \<le> lmt'
            \<and> sorted_wrt (\<lambda>a b. t_created b \<le> t_created a) rows"
    using assms(3) by (rule unpaid_transactions_page)
next
  assume "mset (users (conn_db conn')) = mset (users (conn_db conn))
            \<and> distinct (map u_id (users (conn_db conn)))"
  then show "fst (list_users conn' skip_q limit_q) = fst (list_users conn skip_q limit_q)"
    by (intro list_users_scan_order) simp_all
next
  assume a: "mset (transactions (conn_db conn')) = mset (transactions (conn_db conn))
            \<and> distinct (map t_created (transactions (conn_db conn)))"
  note eqs = transaction_listings_scan_order [OF conjunct1 [OF a] conjunct2 [OF a]]
  show "fst (list_transactions conn' skip_q limit_q' pending paid)
              = fst (list_transactions conn skip_q limit_q' pending paid)"
    by (rule eqs)
  show "fst (get_user_transactions conn' uid limit_q')
              = fst (get_user_transactions conn uid limit_q')"
    by (rule eqs)
  show "fst (get_pending_transactions conn' limit_q')
              = fst (get_pending_transactions conn limit_q')"
    by (rule eqs)
  show "fst (unpaid_transactions conn' limit_q')
              = fst (unpaid_transactions conn limit_q')"
    by (rule eqs)
qed

theorem listings_paginate_in_declared_order_witness:
  "fst (list_users example_conn (Some 1) (Some 1)) = Inr [bob]
   \<and> fst (list_transactions example_conn (Some 1) (Some 2) None None)
       = Inr [txn ''c'' 2 30 False False 9, txn ''b'' 2 20 True False 7]
   \<and> fst (get_user_transactions example_conn 2 (Some 2))
       = Inr [txn ''d'' 2 40 False False 11, txn ''c'' 2 30 False False 9]
   \<and> fst (get_pending_transactions example_conn (Some 2)) = Inr [txn ''b'' 2 20 True False 7]
   \<and> fst (unpaid_transactions example_conn (Some 2))
       = Inr [txn ''d'' 2 40 False False 11, txn ''c'' 2 30 False False 9]
   \<and> mset (users (conn_db rescanned_conn)) = mset (users (conn_db example_conn))
   \<and> distinct (map u_id (users (conn_db example_conn)))
   \<and> mset (transactions (conn_db rescanned_conn)) = mset (transactions (conn_db example_conn))
   \<and> distinct (map t_created (transactions (conn_db example_conn)))
   \<and> fst (list_users rescanned_conn (Some 1) (Some 1)) = Inr [bob]
   \<and> fst (list_transactions rescanned_conn (Some 1) (Some 2) None None)
       = Inr [txn ''c'' 2 30 False False 9, txn ''b'' 2 20 True False 7]
   \<and> fst (unpaid_transactions rescanned_conn (Some 2))
       = Inr [txn ''d'' 2 40 False False 11, txn ''c'' 2 30 False False 9]"
proof -
  have q: "Query 0 (Some 0) None (Some 1) = Inr 1"
    "Query 10 (Some 1) (Some 100) (Some 1) = Inr 1"
    "Query 50 (Some 1) (Some 500) (Some 2) = Inr 2"
    by (simp_all add: Query_simps)
  have same: "mset (users (conn_db rescanned_conn)) = mset (users (conn_db example_conn))"
    "distinct (map u_id (users (conn_db example_conn)))"
    "mset (transactions (conn_db rescanned_conn)) = mset (transactions (conn_db example_conn))"
    "distinct (map t_created (transactions (conn_db example_conn)))"
    by (simp_all add: rescanned_conn_def example_conn_def example_db_def alice_def bob_def
        txn_def)
  note page = listings_paginate_in_declared_order
    [OF q, where conn = example_conn and conn' = rescanned_conn and uid = 2
       and pending = None and paid = None]
  have here: "fst (list_users example_conn (Some 1) (Some 1)) = Inr [bob]"
    "fst (list_transactions example_conn (Some 1) (Some 2) None None)
       = Inr [txn ''c'' 2 30 False False 9, txn ''b'' 2 20 True False 7]"
    "fst (get_user_transactions example_conn 2 (Some 2))
       = Inr [txn ''d'' 2 40 False False 11, txn ''c'' 2 30 False False 9]"
    "fst (get_pending_transactions example_conn (Some 2)) = Inr [txn ''b'' 2 20 True False 7]"
    "fst (unpaid_transactions example_conn (Some 2))
       = Inr [txn ''d'' 2 40 False False 11, txn ''c'' 2 30 False False 9]"
    using page
    by (simp_all add: example_conn_def example_db_def alice_def bob_def txn_def
        order_by_desc_def where_clause_def where_clauses_def)
  have there: "fst (list_users rescanned_conn (Some 1) (Some 1))
                 = fst (list_users example_conn (Some 1) (Some 1))"
    "fst (list_transactions rescanned_conn (Some 1) (Some 2) None None)
       = fst (list_transactions example_conn (Some 1) (Some 2) None None)"
    "fst (unpaid_transactions rescanned_conn (Some 2))
       = fst (unpaid_transactions example_conn (Some 2))"
    using page same by blast+
  show ?thesis
    using here there same by simp
qed

text \<open>
  The claim as the specification states it, that the same inputs over the same rows give
  the same ordered result, fails where two transactions have the same \<open>created\<close>: rows
  with equal sort keys come in the order in which the store scans them. The two stores
  below hold the same rows, and the first page of one row differs.
\<close>

theorem listings_tied_created_counterexample:
  "users (conn_db tied_conn') = users (conn_db tied_conn)
   \<and> mset (transactions (conn_db tied_conn')) = mset (transactions (conn_db tied_conn))
   \<and> fst (list_transactions tied_conn None (Some 1) None None)
       = Inr [txn ''x'' 1 10 False False 5]
   \<and> fst (list_transactions tied_conn' None (Some 1) None None)
       = Inr [txn ''y'' 1 20 False False 5]
   \<and> fst (list_transactions tied_conn' None (Some 1) None None)
       \<noteq> fst (list_transactions tied_conn None (Some 1) None None)"
  by (simp add: tied_conn_def tied_conn'_def list_transactions_def Query_simps execute_def
      sql_list_transactions_def sql_limit_def sql_offset_def order_by_desc_def where_clause_def
      where_clauses_def txn_def)

text \<open>
  C7. In the filtered listing a filter constrains the rows only when it is supplied, and the
  supplied filters are combined with \<open>AND\<close>: for valid (or omitted) \<open>skip\<close> and \<open>limit\<close> the
  response is the page of the ordered rows that satisfy every supplied filter. With
  \<open>pending = true\<close> and \<open>paid = true\<close> every returned row satisfies both; with both filters
  omitted the page is taken from all transactions, and holds all of them when they fit in
  it.
\<close>

theorem list_transactions_optional_filters:
  assumes "Query 0 (Some 0) None skip_q = Inr skip"
    and "Query 50 (Some 1) (Some 500) limit_q = Inr lmt"
  shows "fst (list_transactions conn skip_q limit_q pending paid)
           = Inr (take (nat lmt) (drop (nat skip)
               (order_by_desc t_created
                  (filter (\<lambda>t. (case pending of None \<Rightarrow> True | Some p \<Rightarrow> t_pending t = p) \<and>
                                (case paid of None \<Rightarrow> True | Some p \<Rightarrow> t_paid t = p))
                     (transactions (conn_db conn))))))
       \<and> (\<exists>rows. fst (list_transactions conn skip_q limit_q (Some True) (Some True)) = Inr rows
            \<and> (\<forall>t \<in> set rows. t_pending t \<and> t_paid t \<and> t \<in> set (transactions (conn_db conn))))
       \<and> (\<exists>rows. fst (list_transactions conn skip_q limit_q None None) = Inr rows
            \<and> rows = take (nat lmt) (drop (nat skip)
                 (order_by_desc t_created (transactions (conn_db conn))))
            \<and> (skip = 0 \<and> length (transactions (conn_db conn)) \<le> nat lmt
                 \<longrightarrow> mset rows = mset (transactions (conn_db conn))))"
proof (intro conjI)
  have r: "fst (list_transactions conn skip_q limit_q p q)
             = Inr (take (nat lmt) (drop (nat skip)
                 (order_by_desc t_created
                    (filter (\<lambda>t. (case p of None \<Rightarrow> True | Some p \<Rightarrow> t_pending t = p) \<and>
                                  (case q of None \<Rightarrow> True | Some p \<Rightarrow> t_paid t = p))
                       (transactions (conn_db conn))))))" for p q
    by (simp add: list_transactions_valid [OF assms] sql_list_transactions_def
        where_clause_filter sql_limit_def sql_offset_def)
  show "fst (list_transactions conn skip_q limit_q pending paid)
           = Inr (take (nat lmt) (drop (nat skip)
               (order_by_desc t_created
                  (filter (\<lambda>t. (case pending of None \<Rightarrow> True | Some p \<Rightarrow> t_pending t = p) \<and>
                                (case paid of None \<Rightarrow> True | Some p \<Rightarrow> t_paid t = p))
                     (transactions (conn_db conn))))))"
    by (rule r)
  let ?both = "take (nat lmt) (drop (nat skip)
         (order_by_desc t_created
            (filter (\<lambda>t. t_pending t \<and> t_paid t) (transactions (conn_db conn)))))"
  have both: "fst (list_transactions conn skip_q limit_q (Some True) (Some True)) = Inr ?both"
    by (simp add: r)
  have "t_pending t \<and> t_paid t \<and> t \<in> set (transactions (conn_db conn))"
    if "t \<in> set ?both" for t
  proof -
    have "t \<in> set (drop (nat skip) (order_by_desc t_created
            (filter (\<lambda>t. t_pending t \<and> t_paid t) (transactions (conn_db conn)))))"
      using that by (rule in_set_takeD)
    then have "t \<in> set (order_by_desc t_created
            (filter (\<lambda>t. t_pending t \<and> t_paid t) (transactions (conn_db conn))))"
      by (rule in_set_dropD)
    then show ?thesis
      by (simp add: set_order_by_desc)
  qed
  then have "\<forall>t \<in> set ?both. t_pending t \<and> t_paid t \<and> t \<in> set (transactions (conn_db conn))"
    by (rule ballI)
  with both show "\<exists>rows. fst (list_transactions conn skip_q limit_q (Some True) (Some True)) = Inr rows
            \<and> (\<forall>t \<in> set rows. t_pending t \<and> t_paid t \<and> t \<in> set (transactions (conn_db conn)))"
    by (intro exI [of _ ?both] conjI)
  let ?all = "take (nat lmt) (drop (nat skip)
                 (order_by_desc t_created (transactions (conn_db conn))))"
  have none: "fst (list_transactions conn skip_q limit_q None None) = Inr ?all"
    by (simp add: r)
  have fits: "mset ?all = mset (transactions (conn_db conn))"
    if "skip = 0 \<and> length (transactions (conn_db conn)) \<le> nat lmt"
    using that by (simp add: length_order_by_desc mset_order_by_desc)
  show "\<exists>rows. fst (list_transactions conn skip_q limit_q None None) = Inr rows
            \<and> rows = take (nat lmt) (drop (nat skip)
                 (order_by_desc t_created (transactions (conn_db conn))))
            \<and> (skip = 0 \<and> length (transactions (conn_db conn)) \<le> nat lmt
                 \<longrightarrow> mset rows = mset (transactions (conn_db conn)))"
    using none fits by (intro exI [of _ ?all] conjI impI refl)
qed

theorem list_transactions_optional_filters_witness:
  "fst (list_transactions example_conn None (Some 3) (Some False) (Some False))
     = Inr [txn ''d'' 2 40 False False 11, txn ''c'' 2 30 False False 9]
   \<and> fst (list_transactions example_conn None (Some 3) (Some True) None)
     = Inr [txn ''b'' 2 20 True False 7]
   \<and> fst (list_transactions example_conn None (Some 3) None None)
     = Inr [txn ''d'' 2 40 False False 11, txn ''c'' 2 30 False False 9,
            txn ''b'' 2 20 True False 7]"
proof -
  have q1: "Query 0 (Some 0) None None = Inr 0"
    and q2: "Query 50 (Some 1) (Some 500) (Some 3) = Inr 3"
    by (simp_all add: Query_simps)
  note page = list_transactions_optional_filters [OF q1 q2, THEN conjunct1]
  show ?thesis
    by (simp add: page example_conn_def example_db_def txn_def order_by_desc_def)
qed

section \<open>Parameter validation\<close>

lemma response_model_not_request_error: "response_model v rows \<noteq> Inl RequestValidationError"
  by (induction rows) (auto split: option.splits sum.splits)

lemma list_users_rejects:
  "(list_users conn (Some skip) (Some lmt) = (Inl RequestValidationError, conn))
     = (skip < 0 \<or> lmt < 1 \<or> 100 < lmt)"
  "executed (snd (list_users conn (Some skip) (Some lmt)))
     = (if skip < 0 \<or> lmt < 1 \<or> 100 < lmt then executed conn else Suc (executed conn))"
  by (auto simp: list_users_def Query_simps execute_def)

lemma list_users_defaults:
  "list_users conn None limit_q = list_users conn (Some 0) limit_q"
  "list_users conn skip_q None = list_users conn skip_q (Some 10)"
  by (simp_all add: list_users_def Query_simps split: sum.splits)

lemma list_transactions_rejects:
  "(list_transactions conn (Some skip) (Some lmt) pending paid = (Inl RequestValidationError, conn))
     = (skip < 0 \<or> lmt < 1 \<or> 500 < lmt)"
  "executed (snd (list_transactions conn (Some skip) (Some lmt) pending paid))
     = (if skip < 0 \<or> lmt < 1 \<or> 500 < lmt then executed conn else Suc (executed conn))"
  by (auto simp: list_transactions_def Query_simps execute_def)

lemma list_transactions_defaults:
  "list_transactions conn None limit_q pending paid
     = list_transactions conn (Some 0) limit_q pending paid"
  "list_transactions conn skip_q None pending paid
     = list_transactions conn skip_q (Some 50) pending paid"
  by (simp_all add: list_transactions_def Query_simps split: sum.splits)

lemma get_user_transactions_rejects:
  "(get_user_transactions conn uid (Some lmt) = (Inl RequestValidationError, conn))
     = (lmt < 1 \<or> 500 < lmt)"
  "executed (snd (get_user_transactions conn uid (Some lmt)))
     = (if lmt < 1 \<or> 500 < lmt then executed conn else Suc (executed conn))"
  "get_user_transactions conn uid None = get_user_transactions conn uid (Some 50)"
  by (auto simp: get_user_transactions_def Query_simps execute_def)

lemma get_pending_transactions_rejects:
  "(get_pending_transactions conn (Some lmt) = (Inl RequestValidationError, conn))
     = (lmt < 1 \<or> 500 < lmt)"
  "executed (snd (get_pending_transactions conn (Some lmt)))
     = (if lmt < 1 \<or> 500 < lmt then executed conn else Suc (executed conn))"
  "get_pending_transactions conn None = get_pending_transactions conn (Some 50)"
  by (auto simp: get_pending_transactions_def Query_simps execute_def)

lemma unpaid_transactions_rejects:
  "(unpaid_transactions conn (Some lmt) = (Inl RequestValidationError, conn))
     = (lmt < 1 \<or> 500 < lmt)"
  "executed (snd (unpaid_transactions conn (Some lmt)))
     = (if lmt < 1 \<or> 500 < lmt then executed conn else Suc (executed conn))"
  "unpaid_transactions conn None = unpaid_transactions conn (Some 50)"
  by (auto simp: unpaid_transactions_def Query_simps execute_def)

lemma suspicious_transactions_rejects:
  "(suspicious_transactions conn (Some lmt) = (Inl RequestValidationError, conn))
     = (lmt < 1 \<or> 500 < lmt)"
  "executed (snd (suspicious_transactions conn (Some lmt)))
     = (if lmt < 1 \<or> 500 < lmt then executed conn else Suc (executed conn))"
  "suspicious_transactions conn None = suspicious_transactions conn (Some 50)"
  by (auto simp: suspicious_transactions_def Query_simps execute_def)

lemma top_users_by_volume_rejects:
  "(top_users_by_volume conn (Some lmt) = (Inl RequestValidationError, conn))
     = (lmt < 1 \<or> 100 < lmt)"
  "executed (snd (top_users_by_volume conn (Some lmt)))
     = (if lmt < 1 \<or> 100 < lmt then executed conn else Suc (executed conn))"
  "top_users_by_volume conn None = top_users_by_volume conn (Some 10)"
  by (auto simp: top_users_by_volume_def Query_simps execute_def
      response_model_not_request_error)

lemma daily_transaction_summary_rejects:
  "(daily_transaction_summary conn (Some days) = (Inl RequestValidationError, conn))
     = (days < 1 \<or> 365 < days)"
  "executed (snd (daily_transaction_summary conn (Some days)))
     = (if days < 1 \<or> 365 < days then executed conn else Suc (executed conn))"
  "daily_transaction_summary conn None = daily_transaction_summary conn (Some 7)"
  by (auto simp: daily_transaction_summary_def Query_simps execute_def)

text \<open>
  C9. Every numeric query parameter has a declared inclusive range and a default inside
  it: page size 1 to 100 (default 10) for the users listing and for top-users, 1 to 500
  (default 50) for the five transaction listings and the suspicious-transactions report,
  1 to 365 (default 7) for the day window, and \<open>skip\<close> at least 0 (default 0). A handler
  answers \<open>RequestValidationError\<close> with the connection untouched exactly when a supplied
  value is outside its range; the statement counter shows that no statement was sent in that
  case, and one statement otherwise. An omitted parameter behaves as its default.
\<close>

theorem numeric_parameters_bounded:
  "((list_users conn (Some skip) (Some lmt) = (Inl RequestValidationError, conn))
       = (skip < 0 \<or> lmt < 1 \<or> 100 < lmt))
   \<and> executed (snd (list_users conn (Some skip) (Some lmt)))
       = (if skip < 0 \<or> lmt < 1 \<or> 100 < lmt then executed conn else Suc (executed conn))
   \<and> list_users conn None limit_q = list_users conn (Some 0) limit_q
   \<and> list_users conn skip_q None = list_users conn skip_q (Some 10)
   \<and> ((list_transactions conn (Some skip) (Some lmt) pending paid
         = (Inl RequestValidationError, conn))
       = (skip < 0 \<or> lmt < 1 \<or> 500 < lmt))
   \<and> executed (snd (list_transactions conn (Some skip) (Some lmt) pending paid))
       = (if skip < 0 \<or> lmt < 1 \<or> 500 < lmt then executed conn else Suc (executed conn))
   \<and> list_transactions conn None limit_q pending paid
       = list_transactions conn (Some 0) limit_q pending paid
   \<and> list_transactions conn skip_q None pending paid
       = list_transactions conn skip_q (Some 50) pending paid
   \<and> ((get_user_transactions conn uid (Some lmt) = (Inl RequestValidationError, conn))
       = (lmt < 1 \<or> 500 < lmt))
   \<and> executed (snd (get_user_transactions conn uid (Some lmt)))
       = (if lmt < 1 \<or> 500 < lmt then executed conn else Suc (executed conn))
   \<and> get_user_transactions conn uid None = get_user_transactions conn uid (Some 50)
   \<and> ((get_pending_transactions conn (Some lmt) = (Inl RequestValidationError, conn))
       = (lmt < 1 \<or> 500 < lmt))
   \<and> executed (snd (get_pending_transactions conn (Some lmt)))
       = (if lmt < 1 \<or> 500 < lmt then executed conn else Suc (executed conn))
   \<and> get_pending_transactions conn None = get_pending_transactions conn (Some 50)
   \<and> ((unpaid_transactions conn (Some lmt) = (Inl RequestValidationError, conn))
       = (lmt < 1 \<or> 500 < lmt))
   \<and> executed (snd (unpaid_transactions conn (Some lmt)))
       = (if lmt < 1 \<or> 500 < lmt then executed conn else Suc (executed conn))
   \<and> unpaid_transactions conn None = unpaid_transactions conn (Some 50)
   \<and> ((suspicious_transactions conn (Some lmt) = (Inl RequestValidationError, conn))
       = (lmt < 1 \<or> 500 < lmt))
   \<and> executed (snd (suspicious_transactions conn (Some lmt)))
       = (if lmt < 1 \<or> 500 < lmt then executed conn else Suc (executed conn))
   \<and> suspicious_transactions conn None = suspicious_transactions conn (Some 50)
   \<and> ((top_users_by_volume conn (Some lmt) = (Inl RequestValidationError, conn))
       = (lmt < 1 \<or> 100 < lmt))
   \<and> executed (snd (top_users_by_volume conn (Some lmt)))
       = (if lmt < 1 \<or> 100 < lmt then executed conn else Suc (executed conn))
   \<and> top_users_by_volume conn None = top_users_by_volume conn (Some 10)
   \<and> ((daily_transaction_summary conn (Some days) = (Inl RequestValidationError, conn))
       = (days < 1 \<or> 365 < days))
   \<and> executed (snd (daily_transaction_summary conn (Some days)))
       = (if days < 1 \<or> 365 < days then executed conn else Suc (executed conn))
   \<and> daily_transaction_summary conn None = daily_transaction_summary conn (Some 7)"
  by (intro conjI list_users_rejects list_users_defaults list_transactions_rejects
      list_transactions_defaults get_user_transactions_rejects get_pending_transactions_rejects
      unpaid_transactions_rejects suspicious_transactions_rejects top_users_by_volume_rejects
      daily_transaction_summary_rejects)

theorem numeric_parameters_bounded_witness:
  "list_users example_conn (Some 0) (Some 101) = (Inl RequestValidationError, example_conn)
   \<and> list_transactions example_conn (Some 0) (Some 101) None None
       \<noteq> (Inl RequestValidationError, example_conn)
   \<and> executed (snd (list_transactions example_conn (Some 0) (Some 101) None None)) = 1
   \<and> unpaid_transactions example_conn (Some 101) \<noteq> (Inl RequestValidationError, example_conn)
   \<and> top_users_by_volume example_conn (Some 101) = (Inl RequestValidationError, example_conn)
   \<and> daily_transaction_summary example_conn (Some 366)
       = (Inl RequestValidationError, example_conn)
   \<and> executed (snd (daily_transaction_summary example_conn (Some 366))) = 0"
  using numeric_parameters_bounded
    [where conn = example_conn and skip = 0 and lmt = 101 and days = 366]
  by (simp add: example_conn_def)

section \<open>The unpaid listing and the per-user listing\<close>

lemma limit_keeps_all: "length rows \<le> n \<Longrightarrow> mset (take n (order_by_desc k rows)) = mset rows"
  by (simp add: length_order_by_desc mset_order_by_desc)

lemma limit_subset: "t \<in> set (take n (order_by_desc k (filter P rows))) \<Longrightarrow> P t \<and> t \<in> set rows"
proof -
  assume "t \<in> set (take n (order_by_desc k (filter P rows)))"
  then have "t \<in> set (order_by_desc k (filter P rows))"
    by (rule in_set_takeD)
  then show ?thesis
    by (simp add: set_order_by_desc)
qed

lemma unpaid_transactions_result:
  assumes "Query 50 (Some 1) (Some 500) limit_q = Inr lmt"
  shows "fst (unpaid_transactions conn limit_q)
           = Inr (take (nat lmt) (order_by_desc t_created
               (filter (\<lambda>t. t_pending t = False \<and> t_paid t = False)
                  (transactions (conn_db conn)))))"
  by (simp add: unpaid_transactions_valid [OF assms] sql_unpaid_transactions_def sql_limit_def)

text \<open>
  C6 (as the code has it). For a valid (or omitted) \<open>limit\<close>, the unpaid listing returns the
  first \<open>limit\<close> rows, by descending \<open>created\<close>, of exactly the transactions with
  \<open>pending = false\<close> and \<open>paid = false\<close>. Every returned row is a transaction of the table
  with both flags false, so a row with \<open>pending = true\<close> never appears; and every such
  transaction is returned when there are at most \<open>limit\<close> of them.
\<close>

theorem unpaid_listing_selects_confirmed_unpaid:
  assumes "Query 50 (Some 1) (Some 500) limit_q = Inr lmt"
  shows "fst (unpaid_transactions conn limit_q)
           = Inr (take (nat lmt) (order_by_desc t_created
               (filter (\<lambda>t. t_pending t = False \<and> t_paid t = False)
                  (transactions (conn_db conn)))))
       \<and> (\<exists>rows. fst (unpaid_transactions conn limit_q) = Inr rows
            \<and> (\<forall>t \<in> set rows. t_pending t = False \<and> t_paid t = False
                  \<and> t \<in> set (transactions (conn_db conn)))
            \<and> (length (filter (\<lambda>t. t_pending t = False \<and> t_paid t = False)
                          (transactions (conn_db conn))) \<le> nat lmt
                 \<longrightarrow> mset rows = mset (filter (\<lambda>t. t_pending t = False \<and> t_paid t = False)
                                       (transactions (conn_db conn)))))"
proof (intro conjI)
  let ?unpaid = "filter (\<lambda>t. t_pending t = False \<and> t_paid t = False) (transactions (conn_db conn))"
  let ?rows = "take (nat lmt) (order_by_desc t_created ?unpaid)"
  show r: "fst (unpaid_transactions conn limit_q) = Inr ?rows"
    using assms by (rule unpaid_transactions_result)
  have "(t_pending t = False \<and> t_paid t = False) \<and> t \<in> set (transactions (conn_db conn))"
    if "t \<in> set ?rows" for t
    using that by (rule limit_subset)
  then have sel: "\<forall>t \<in> set ?rows. t_pending t = False \<and> t_paid t = False
                    \<and> t \<in> set (transactions (conn_db conn))"
    by blast
  have fits: "mset ?rows = mset ?unpaid" if "length ?unpaid \<le> nat lmt"
    using that by (rule limit_keeps_all)
  show "\<exists>rows. fst (unpaid_transactions conn limit_q) = Inr rows
            \<and> (\<forall>t \<in> set rows. t_pending t = False \<and> t_paid t = False
                  \<and> t \<in> set (transactions (conn_db conn)))
            \<and> (length ?unpaid \<le> nat lmt \<longrightarrow> mset rows = mset ?unpaid)"
    using r sel fits by (intro exI [of _ ?rows] conjI impI)
qed

theorem unpaid_listing_selects_confirmed_unpaid_witness:
  "fst (unpaid_transactions example_conn None)
     = Inr [txn ''d'' 2 40 False False 11, txn ''c'' 2 30 False False 9]
   \<and> length (filter (\<lambda>t. t_pending t = False \<and> t_paid t = False)
        (transactions (conn_db example_conn))) \<le> nat 50
   \<and> txn ''b'' 2 20 True False 7 \<in> set (transactions (conn_db example_conn))"
proof -
  have q: "Query 50 (Some 1) (Some 500) None = Inr 50"
    by (simp add: Query_simps)
  note listing = unpaid_listing_selects_confirmed_unpaid [OF q, THEN conjunct1]
  show ?thesis
    by (simp add: listing example_conn_def example_db_def txn_def order_by_desc_def)
qed

text \<open>
  The claim as the specification states it fails where more than \<open>limit\<close> transactions are
  confirmed and unpaid: with \<open>limit = 1\<close> the listing returns the newest of the two such
  transactions of \<open>example_db\<close>, and not the other.
\<close>

theorem unpaid_listing_limit_counterexample:
  "fst (unpaid_transactions example_conn (Some 1)) = Inr [txn ''d'' 2 40 False False 11]
   \<and> txn ''c'' 2 30 False False 9 \<in> set (transactions (conn_db example_conn))
   \<and> t_pending (txn ''c'' 2 30 False False 9) = False
   \<and> t_paid (txn ''c'' 2 30 False False 9) = False
   \<and> txn ''c'' 2 30 False False 9 \<notin> set [txn ''d'' 2 40 False False 11]"
  by (simp add: unpaid_transactions_def Query_simps execute_def sql_unpaid_transactions_def
      sql_limit_def order_by_desc_def example_conn_def example_db_def txn_def)

lemma get_user_transactions_result:
  assumes "Query 50 (Some 1) (Some 500) limit_q = Inr lmt"
  shows "fst (get_user_transactions conn uid limit_q)
           = Inr (take (nat lmt) (order_by_desc t_created
               (filter (\<lambda>t. t_user_id t = uid) (transactions (conn_db conn)))))"
  by (simp add: get_user_transactions_valid [OF assms] sql_get_user_transactions_def
      sql_limit_def)

lemma order_by_desc_Nil: "(order_by_desc k rows = []) = (rows = [])"
  using length_order_by_desc [of k rows] by (metis length_0_conv)

lemma get_user_transactions_empty:
  assumes "Query 50 (Some 1) (Some 500) limit_q = Inr lmt"
  shows "(fst (get_user_transactions conn uid limit_q) = Inr [])
           = (\<forall>t \<in> set (transactions (conn_db conn)). t_user_id t \<noteq> uid)"
proof -
  have "1 \<le> lmt \<and> lmt \<le> 500"
    using assms by (rule Query_bounded_Inr) simp_all
  then have pos: "\<not> lmt \<le> 0"
    by simp
  show ?thesis
    by (simp add: get_user_transactions_result [OF assms] take_eq_Nil pos order_by_desc_Nil
        filter_empty_conv)
qed

text \<open>
  C10 (as the code has it). The per-user listing never consults the users table: for every
  user id, with or without a user row, and a valid (or omitted) \<open>limit\<close>, it answers with
  success, never Not-Found, and returns the first \<open>limit\<close> transactions, by descending
  \<open>created\<close>, whose \<open>user_id\<close> is that id. The list is empty exactly when no transaction
  carries the id. So an id without a user row gets the empty list when every transaction
  refers to an existing user; a transaction that refers to the missing id is returned.
\<close>

theorem get_user_transactions_ignores_users:
  assumes "Query 50 (Some 1) (Some 500) limit_q = Inr lmt"
  shows "fst (get_user_transactions conn uid limit_q)
           = Inr (take (nat lmt) (order_by_desc t_created
               (filter (\<lambda>t. t_user_id t = uid) (transactions (conn_db conn)))))
       \<and> (fst (get_user_transactions conn uid limit_q) = Inr [])
           = (\<forall>t \<in> set (transactions (conn_db conn)). t_user_id t \<noteq> uid)
       \<and> (transactions (conn_db conn') = transactions (conn_db conn) \<longrightarrow>
            fst (get_user_transactions conn' uid limit_q)
              = fst (get_user_transactions conn uid limit_q))
       \<and> ((\<forall>t \<in> set (transactions (conn_db conn)).
               \<exists>u \<in> set (users (conn_db conn)). u_id u = t_user_id t)
            \<and> sql_get_user uid (conn_db conn) = [] \<longrightarrow>
            fst (get_user_transactions conn uid limit_q) = Inr [])"
proof (intro conjI impI)
  show "fst (get_user_transactions conn uid limit_q)
           = Inr (take (nat lmt) (order_by_desc t_created
               (filter (\<lambda>t. t_user_id t = uid) (transactions (conn_db conn)))))"
    using assms by (rule get_user_transactions_result)
  show e: "(fst (get_user_transactions conn uid limit_q) = Inr [])
           = (\<forall>t \<in> set (transactions (conn_db conn)). t_user_id t \<noteq> uid)"
    using assms by (rule get_user_transactions_empty)
  show "fst (get_user_transactions conn' uid limit_q)
          = fst (get_user_transactions conn uid limit_q)"
    if "transactions (conn_db conn') = transactions (conn_db conn)"
    using that by (simp add: get_user_transactions_result [OF assms])
  show "fst (get_user_transactions conn uid limit_q) = Inr []"
    if a: "(\<forall>t \<in> set (transactions (conn_db conn)).
               \<exists>u \<in> set (users (conn_db conn)). u_id u = t_user_id t)
            \<and> sql_get_user uid (conn_db conn) = []"
  proof -
    have "\<forall>u \<in> set (users (conn_db conn)). u_id u \<noteq> uid"
      using a by (simp add: sql_get_user_def filter_empty_conv)
    with a have "\<forall>t \<in> set (transactions (conn_db conn)). t_user_id t \<noteq> uid"
      by metis
    then show ?thesis
      by (simp only: e)
  qed
qed

theorem get_user_transactions_ignores_users_witness:
  "sql_get_user 9 (conn_db example_conn) = []
   \<and> fst (get_user_transactions example_conn 9 None) = Inr []
   \<and> fst (get_user_transactions (example_conn\<lparr>conn_db := (conn_db example_conn)\<lparr>users := []\<rparr>\<rparr>) 9 None)
       = Inr []
   \<and> fst (get_user_transactions example_conn 2 (Some 1)) = Inr [txn ''d'' 2 40 False False 11]"
proof -
  have q: "Query 50 (Some 1) (Some 500) None = Inr 50"
    and q1: "Query 50 (Some 1) (Some 500) (Some 1) = Inr 1"
    by (simp_all add: Query_simps)
  note nobody = get_user_transactions_ignores_users
    [OF q, where conn = example_conn and uid = 9
       and conn' = "example_conn\<lparr>conn_db := (conn_db example_conn)\<lparr>users := []\<rparr>\<rparr>"]
  note bob's = get_user_transactions_ignores_users
    [OF q1, THEN conjunct1]
  have integrity: "(\<forall>t \<in> set (transactions (conn_db example_conn)).
                      \<exists>u \<in> set (users (conn_db example_conn)). u_id u = t_user_id t)
                   \<and> sql_get_user 9 (conn_db example_conn) = []"
    by (simp add: example_conn_def example_db_def txn_def alice_def bob_def sql_get_user_def)
  have none: "fst (get_user_transactions example_conn 9 None) = Inr []"
    using nobody integrity by blast
  have same: "transactions (conn_db (example_conn\<lparr>conn_db := (conn_db example_conn)\<lparr>users := []\<rparr>\<rparr>))
                = transactions (conn_db example_conn)"
    by simp
  have gone: "fst (get_user_transactions
                     (example_conn\<lparr>conn_db := (conn_db example_conn)\<lparr>users := []\<rparr>\<rparr>) 9 None)
                = fst (get_user_transactions example_conn 9 None)"
    using nobody same by blast
  have one: "fst (get_user_transactions example_conn 2 (Some 1))
               = Inr [txn ''d'' 2 40 False False 11]"
    by (simp add: bob's example_conn_def example_db_def txn_def order_by_desc_def)
  show ?thesis
    using integrity none gone one by simp
qed

text \<open>
  The claim as the specification states it fails where a transaction refers to a user id
  that has no user row, which the data model allows: \<open>orphan_conn\<close> has no user 5, the user
  lookup answers Not-Found, and the per-user listing returns the transaction of user 5.
\<close>

theorem get_user_transactions_orphan_counterexample:
  "sql_get_user 5 (conn_db orphan_conn) = []
   \<and> fst (get_user orphan_conn 5) = Inl (HTTPException 404 ''User not found'')
   \<and> fst (get_user_transactions orphan_conn 5 None) = Inr [txn ''o'' 5 10 False True 5]
   \<and> fst (get_user_transactions orphan_conn 5 None) \<noteq> Inr []"
  by (simp add: get_user_transactions_def get_user_def first_def Query_simps execute_def
      sql_get_user_transactions_def sql_get_user_def sql_limit_def order_by_desc_def
      orphan_conn_def alice_def txn_def)

section \<open>Aggregates\<close>

subsection \<open>Grouping, joining and the aggregate functions\<close>

lemma first_None_iff: "(first rows = None) = (rows = [])"
  by (cases rows) (simp_all add: first_def)

lemma first_in_set: "first rows = Some r \<Longrightarrow> r \<in> set rows"
  by (cases rows) (simp_all add: first_def)

lemma group_by_Nil_iff: "(group_by key rows = []) = (rows = [])"
  by (simp add: group_by_def)

lemma group_by_member:
  assumes "(k, g) \<in> set (group_by key rows)"
  shows "g = filter (\<lambda>r. key r = k) rows" and "g \<noteq> []"
  using assms by (auto simp: group_by_def filter_empty_conv)



lemma left_join_Cons:
  "left_join (u # us) ts =
     (if filter (\<lambda>t. u_id u = t_user_id t) ts = [] then [(u, None)]
      else map (\<lambda>t. (u, Some t)) (filter (\<lambda>t. u_id u = t_user_id t) ts)) @ left_join us ts"
  by (simp add: left_join_def Let_def)

lemma left_join_Nil_iff: "(left_join us ts = []) = (us = [])"
  by (cases us) (simp_all add: left_join_Cons, simp add: left_join_def)

lemma filter_left_join:
  "filter (\<lambda>(u, t). P u) (left_join us ts) = left_join (filter P us) ts"
proof (induction us)
  case Nil
  show ?case
    by (simp add: left_join_def)
next
  case (Cons u us)
  show ?case
    by (cases "P u") (simp_all add: left_join_Cons Cons.IH filter_map comp_def)
qed

lemma left_join_unmatched:
  assumes "\<forall>u \<in> set us. \<forall>t \<in> set ts. u_id u \<noteq> t_user_id t"
  shows "left_join us ts = map (\<lambda>u. (u, None)) us"
  using assms
proof (induction us)
  case Nil
  show ?case
    by (simp add: left_join_def)
next
  case (Cons u us)
  then have "filter (\<lambda>t. u_id u = t_user_id t) ts = []"
    by (simp add: filter_empty_conv)
  with Cons show ?case
    by (simp add: left_join_Cons)
qed

lemma non_null_Some: "non_null (map (\<lambda>x. Some (f x)) xs) = map f xs"
  by (induction xs) (simp_all add: non_null_def List.map_filter_simps)

lemma non_null_unmatched:
  assumes "\<forall>x \<in> set g. snd x = None"
  shows "non_null (map (\<lambda>(u, t). map_option f t) g) = []"
  using assms by (induction g) (auto simp: non_null_def List.map_filter_simps)

lemma case_when_unmatched:
  assumes "\<forall>x \<in> set g. snd x = None"
  shows "sum_list (map (\<lambda>(u, t). case_when (map_option f t)) g) = 0"
  using assms by (induction g) (auto simp: case_when_def)

lemma floor_rat_numeral: "\<lfloor>numeral a / numeral b :: rat\<rfloor> = numeral a div numeral b"
  using floor_divide_of_int_eq [of "numeral a" "numeral b", where ?'a = rat] by simp

lemma floor_rat_half: "\<lfloor>1 / 2 :: rat\<rfloor> = 0"
  by (rule floor_unique) simp_all

lemma round2_0: "round2 0 = 0"
  by (simp add: round2_def floor_rat_half)

subsection \<open>Per-user statistics\<close>

lemma user_stats_join:
  "filter (\<lambda>(u, t). u_id u = uid) (left_join (users db) (transactions db))
     = left_join (sql_get_user uid db) (transactions db)"
  by (simp add: sql_get_user_def filter_left_join)

lemma user_stats_Nil_iff: "(sql_user_transaction_stats uid db = []) = (sql_get_user uid db = [])"
  by (simp add: sql_user_transaction_stats_def user_stats_join group_by_Nil_iff left_join_Nil_iff)

lemma sql_get_user_Nil_iff: "(sql_get_user uid db = []) = (\<forall>u \<in> set (users db). u_id u \<noteq> uid)"
  by (simp add: sql_get_user_def filter_empty_conv)

lemma user_transaction_stats_not_found:
  "(fst (user_transaction_stats conn uid) = Inl (HTTPException 404 ''User not found''))
     = (\<forall>u \<in> set (users (conn_db conn)). u_id u \<noteq> uid)"
proof (cases "first (sql_user_transaction_stats uid (conn_db conn))")
  case None
  then have "sql_get_user uid (conn_db conn) = []"
    by (simp add: first_None_iff user_stats_Nil_iff)
  then have "\<forall>u \<in> set (users (conn_db conn)). u_id u \<noteq> uid"
    by (simp add: sql_get_user_Nil_iff)
  then show ?thesis
    using None by (simp add: user_transaction_stats_def execute_def)
next
  case (Some row)
  then have "sql_user_transaction_stats uid (conn_db conn) \<noteq> []"
    by (auto simp: first_def)
  then have "\<not> (\<forall>u \<in> set (users (conn_db conn)). u_id u \<noteq> uid)"
    by (simp add: user_stats_Nil_iff sql_get_user_Nil_iff)
  then show ?thesis
    using Some by (simp add: user_transaction_stats_def execute_def)
qed

lemma user_transaction_stats_found:
  assumes "u \<in> set (users (conn_db conn))" and "u_id u = uid"
  shows "\<exists>row. fst (user_transaction_stats conn uid) = Inr row
           \<and> row \<in> set (sql_user_transaction_stats uid (conn_db conn))"
proof (cases "first (sql_user_transaction_stats uid (conn_db conn))")
  case None
  then have "\<forall>u \<in> set (users (conn_db conn)). u_id u \<noteq> uid"
    by (simp add: first_None_iff user_stats_Nil_iff sql_get_user_Nil_iff)
  with assms show ?thesis
    by blast
next
  case (Some row)
  then have "row \<in> set (sql_user_transaction_stats uid (conn_db conn))"
    by (rule first_in_set)
  then show ?thesis
    using Some by (simp add: user_transaction_stats_def execute_def)
qed

text \<open>Without a transaction of the user, every group of the join holds unmatched rows only,
  and every aggregate over it is its zero.\<close>

lemma user_stats_rows_zero:
  assumes "\<forall>t \<in> set (transactions db). t_user_id t \<noteq> uid"
    and "row \<in> set (sql_user_transaction_stats uid db)"
  shows "us_user_id row = uid \<and> us_total_amount row = 0 \<and> us_transaction_count row = 0
           \<and> us_average_amount row = 0 \<and> us_pending_count row = 0 \<and> us_paid_count row = 0
           \<and> (\<exists>u \<in> set (users db). u_id u = uid \<and> us_email row = u_email u)"
proof -
  let ?rows = "map (\<lambda>u. (u, None :: TransactionResponse option)) (sql_get_user uid db)"
  have "\<forall>u \<in> set (sql_get_user uid db). \<forall>t \<in> set (transactions db). u_id u \<noteq> t_user_id t"
    using assms(1) by (auto simp: sql_get_user_def)
  then have j: "left_join (sql_get_user uid db) (transactions db) = ?rows"
    by (rule left_join_unmatched)
  from assms(2) obtain k g where kg: "(k, g) \<in> set (group_by (\<lambda>(u, t). (u_id u, u_email u)) ?rows)"
    and row: "row =
      \<lparr>us_user_id = uid,
       us_email = snd k,
       us_total_amount = coalesce (sql_sum (map (\<lambda>(u, t). map_option t_amount t) g)) 0,
       us_transaction_count = sql_count (map (\<lambda>(u, t). map_option t_id t) g),
       us_average_amount =
         round2 (coalesce (sql_avg (map (\<lambda>(u, t). map_option t_amount t) g)) 0),
       us_pending_count =
         coalesce (sql_sum (map (\<lambda>(u, t). Some (case_when (map_option t_pending t))) g)) 0,
       us_paid_count =
         coalesce (sql_sum (map (\<lambda>(u, t). Some (case_when (map_option t_paid t))) g)) 0\<rparr>"
    by (auto simp: sql_user_transaction_stats_def user_stats_join j)
  have g: "g = filter (\<lambda>r. (case r of (u, t) \<Rightarrow> (u_id u, u_email u)) = k) ?rows" and "g \<noteq> []"
    using kg by (rule group_by_member)+
  then have unmatched: "\<forall>x \<in> set g. snd x = None"
    by auto
  from \<open>g \<noteq> []\<close> obtain x where "x \<in> set g"
    by (cases g) auto
  then have "\<exists>u \<in> set (users db). u_id u = uid \<and> snd k = u_email u"
    unfolding g by (auto simp: sql_get_user_def)
  moreover have "coalesce (sql_sum (map (\<lambda>(u, t). Some (case_when (map_option f t))) g)) 0 = 0"
    for f :: "TransactionResponse \<Rightarrow> bool"
    using case_when_unmatched [OF unmatched, of f]
      non_null_Some [of "\<lambda>(u, t). case_when (map_option f t)" g]
    by (simp add: sql_sum_def coalesce_def case_prod_unfold)
  ultimately show ?thesis
    by (simp add: row sql_sum_def sql_avg_def sql_count_def coalesce_def round2_0
        non_null_unmatched [OF unmatched])
qed

text \<open>
  C4. For every user id that has a user row and no transaction, the per-user statistics
  return one row for that id (with the e-mail of such a user) in which
  \<open>transaction_count\<close>, \<open>total_amount\<close>, \<open>pending_count\<close> and \<open>paid_count\<close> (and the
  average) are 0: the left join keeps the user. For every user id without a user row the
  operation answers Not-Found; and it answers Not-Found for no other id.
\<close>

theorem user_stats_zero_row_or_not_found:
  "((\<exists>u \<in> set (users (conn_db conn)). u_id u = uid)
      \<and> (\<forall>t \<in> set (transactions (conn_db conn)). t_user_id t \<noteq> uid) \<longrightarrow>
      (\<exists>row. fst (user_transaction_stats conn uid) = Inr row
         \<and> us_user_id row = uid
         \<and> us_transaction_count row = 0
         \<and> us_total_amount row = 0
         \<and> us_pending_count row = 0
         \<and> us_paid_count row = 0
         \<and> us_average_amount row = 0
         \<and> (\<exists>u \<in> set (users (conn_db conn)). u_id u = uid \<and> us_email row = u_email u)))
   \<and> ((\<forall>u \<in> set (users (conn_db conn)). u_id u \<noteq> missing) \<longrightarrow>
        fst (user_transaction_stats conn missing) = Inl (HTTPException 404 ''User not found''))
   \<and> ((fst (user_transaction_stats conn uid) = Inl (HTTPException 404 ''User not found''))
        = (\<forall>u \<in> set (users (conn_db conn)). u_id u \<noteq> uid))"
proof (intro conjI impI)
  assume a: "(\<exists>u \<in> set (users (conn_db conn)). u_id u = uid)
      \<and> (\<forall>t \<in> set (transactions (conn_db conn)). t_user_id t \<noteq> uid)"
  then obtain u where "u \<in> set (users (conn_db conn))" and "u_id u = uid"
    by blast
  then obtain row where r: "fst (user_transaction_stats conn uid) = Inr row"
    and "row \<in> set (sql_user_transaction_stats uid (conn_db conn))"
    using user_transaction_stats_found by blast
  with a have "us_user_id row = uid \<and> us_total_amount row = 0 \<and> us_transaction_count row = 0
           \<and> us_average_amount row = 0 \<and> us_pending_count row = 0 \<and> us_paid_count row = 0
           \<and> (\<exists>u \<in> set (users (conn_db conn)). u_id u = uid \<and> us_email row = u_email u)"
    by (intro user_stats_rows_zero) simp_all
  with r show "\<exists>row. fst (user_transaction_stats conn uid) = Inr row
         \<and> us_user_id row = uid
         \<and> us_transaction_count row = 0
         \<and> us_total_amount row = 0
         \<and> us_pending_count row = 0
         \<and> us_paid_count row = 0
         \<and> us_average_amount row = 0
         \<and> (\<exists>u \<in> set (users (conn_db conn)). u_id u = uid \<and> us_email row = u_email u)"
    by (intro exI [of _ row]) simp
next
  assume "\<forall>u \<in> set (users (conn_db conn)). u_id u \<noteq> missing"
  then show "fst (user_transaction_stats conn missing) = Inl (HTTPException 404 ''User not found'')"
    by (simp only: user_transaction_stats_not_found)
next
  show "(fst (user_transaction_stats conn uid) = Inl (HTTPException 404 ''User not found''))
        = (\<forall>u \<in> set (users (conn_db conn)). u_id u \<noteq> uid)"
    by (rule user_transaction_stats_not_found)
qed

theorem user_stats_zero_row_or_not_found_witness:
  "fst (user_transaction_stats example_conn 1)
     = Inr \<lparr>us_user_id = 1, us_email = ''alice@example.com'', us_total_amount = 0,
            us_transaction_count = 0, us_average_amount = 0, us_pending_count = 0,
            us_paid_count = 0\<rparr>
   \<and> fst (user_transaction_stats example_conn 9) = Inl (HTTPException 404 ''User not found'')
   \<and> fst (user_transaction_stats example_conn 2) \<noteq> Inl (HTTPException 404 ''User not found'')"
proof -
  note stats = user_stats_zero_row_or_not_found [where conn = example_conn and uid = 1 and missing = 9]
  have idle: "(\<exists>u \<in> set (users (conn_db example_conn)). u_id u = 1)
      \<and> (\<forall>t \<in> set (transactions (conn_db example_conn)). t_user_id t \<noteq> 1)"
    and nobody: "\<forall>u \<in> set (users (conn_db example_conn)). u_id u \<noteq> 9"
    and somebody: "\<not> (\<forall>u \<in> set (users (conn_db example_conn)). u_id u \<noteq> 2)"
    by (simp_all add: example_conn_def example_db_def alice_def bob_def txn_def)
  from stats idle obtain row where r: "fst (user_transaction_stats example_conn 1) = Inr row"
    and fields: "us_user_id row = 1" "us_transaction_count row = 0" "us_total_amount row = 0"
      "us_pending_count row = 0" "us_paid_count row = 0" "us_average_amount row = 0"
    and "\<exists>u \<in> set (users (conn_db example_conn)). u_id u = 1 \<and> us_email row = u_email u"
    by blast
  then have "us_email row = ''alice@example.com''"
    by (auto simp: example_conn_def example_db_def alice_def bob_def)
  with fields have "row = \<lparr>us_user_id = 1, us_email = ''alice@example.com'', us_total_amount = 0,
            us_transaction_count = 0, us_average_amount = 0, us_pending_count = 0,
            us_paid_count = 0\<rparr>"
    by (cases row) simp
  moreover have "fst (user_transaction_stats example_conn 9)
                   = Inl (HTTPException 404 ''User not found'')"
    using stats nobody by blast
  moreover have "fst (user_transaction_stats example_conn 2)
                   \<noteq> Inl (HTTPException 404 ''User not found'')"
    using user_stats_zero_row_or_not_found [where conn = example_conn and uid = 2] somebody
    by blast
  ultimately show ?thesis
    using r by simp
qed

subsection \<open>The transaction summary\<close>

lemma summary_Nil_iff: "(sql_transaction_summary db = []) = (transactions db = [])"
  by (simp add: sql_transaction_summary_def sql_limit_def take_eq_Nil group_by_Nil_iff)

lemma transaction_summary_fails_iff:
  "(fst (transaction_summary conn) = Inl (HTTPException 500 ''Failed to fetch summary''))
     = (transactions (conn_db conn) = [])"
proof (cases "first (sql_transaction_summary (conn_db conn))")
  case None
  then have "transactions (conn_db conn) = []"
    by (simp add: first_None_iff summary_Nil_iff)
  then show ?thesis
    using None by (simp add: transaction_summary_def execute_def)
next
  case (Some row)
  then have "sql_transaction_summary (conn_db conn) \<noteq> []"
    by (auto simp: first_def)
  then have "transactions (conn_db conn) \<noteq> []"
    by (simp add: summary_Nil_iff)
  then show ?thesis
    using Some by (simp add: transaction_summary_def execute_def)
qed

text \<open>
  C2. The claim is that over an empty transactions table the summary still returns one row
  whose aggregates are zero. The query wraps \<open>SUM\<close> and \<open>AVG\<close> in \<open>COALESCE(_, 0)\<close>, but it
  also groups by currency: an empty table has no group, the query returns no row, and the
  handler answers its error 500 \<^verbatim>\<open>Failed to fetch summary\<close>. The handler answers that
  error exactly when the table is empty; \<open>empty_conn\<close> is such a store.
\<close>

theorem transaction_summary_empty_table:
  "sql_transaction_summary (conn_db empty_conn) = []
   \<and> fst (transaction_summary empty_conn) = Inl (HTTPException 500 ''Failed to fetch summary'')
   \<and> (fst (transaction_summary conn) = Inl (HTTPException 500 ''Failed to fetch summary''))
       = (transactions (conn_db conn) = [])"
proof (intro conjI)
  have e: "transactions (conn_db empty_conn) = []"
    by (simp add: empty_conn_def)
  then show "sql_transaction_summary (conn_db empty_conn) = []"
    by (simp only: summary_Nil_iff)
  from e show "fst (transaction_summary empty_conn)
                 = Inl (HTTPException 500 ''Failed to fetch summary'')"
    by (simp only: transaction_summary_fails_iff)
  show "(fst (transaction_summary conn) = Inl (HTTPException 500 ''Failed to fetch summary''))
       = (transactions (conn_db conn) = [])"
    by (rule transaction_summary_fails_iff)
qed

subsection \<open>Top users by volume\<close>

lemma left_join_idle:
  assumes "u \<in> set us" and "\<forall>t \<in> set ts. t_user_id t \<noteq> u_id u"
  shows "(u, None) \<in> set (left_join us ts)"
  using assms
proof (induction us)
  case Nil
  then show ?case
    by simp
next
  case (Cons v us)
  show ?case
  proof (cases "u = v")
    case True
    then have "filter (\<lambda>t. u_id v = t_user_id t) ts = []"
      using Cons.prems(2) by (auto simp: filter_empty_conv)
    then show ?thesis
      using True by (simp add: left_join_Cons)
  next
    case False
    then have "(u, None) \<in> set (left_join us ts)"
      using Cons by simp
    then show ?thesis
      by (simp add: left_join_Cons)
  qed
qed

lemma left_join_matched:
  assumes "(u, Some t) \<in> set (left_join us ts)"
  shows "t \<in> set ts \<and> u_id u = t_user_id t"
  using assms by (induction us) (auto simp: left_join_def Let_def split: if_splits)

lemma null_least: "map_option f x \<le> None \<Longrightarrow> x = None"
  by (cases x) simp_all

text \<open>The least key of a sorted list is the key of its first row.\<close>

lemma sort_key_hd_least:
  assumes "x \<in> set xs"
  shows "f (hd (sort_key f xs)) \<le> f x"
proof (cases "sort_key f xs")
  case Nil
  then have "set (sort_key f xs) = {}"
    by simp
  with assms show ?thesis
    by simp
next
  case (Cons y ys)
  have "sorted (map f (sort_key f xs))"
    by simp
  then have "\<forall>z \<in> set ys. f y \<le> f z"
    by (simp add: Cons)
  moreover have "x \<in> set (y # ys)"
    using assms Cons by (metis set_sort)
  ultimately show ?thesis
    by (auto simp: Cons)
qed

text \<open>A user without transactions makes the whole response fail: the group of that user
  has a \<open>NULL\<close> total, \<open>NULL\<close> sorts first under \<open>DESC\<close>, so the first row of every page
  has a \<open>NULL\<close> total, which \<open>TopUser\<close> does not admit.\<close>

lemma top_users_by_volume_idle_user:
  assumes "Query 10 (Some 1) (Some 100) limit_q = Inr lmt"
    and "u \<in> set (users (conn_db conn))"
    and "\<forall>t \<in> set (transactions (conn_db conn)). t_user_id t \<noteq> u_id u"
  shows "fst (top_users_by_volume conn limit_q) = Inl ResponseValidationError"
proof -
  let ?joined = "left_join (users (conn_db conn)) (transactions (conn_db conn))"
  let ?key = "\<lambda>(u :: UserResponse, t :: TransactionResponse option). (u_id u, u_email u)"
  let ?row = "\<lambda>((id, email), g).
                  \<lparr>r_user_id = id,
                   r_email = email,
                   r_total_amount = map_option round2 (sql_sum (map (\<lambda>(u, t). map_option t_amount t) g)),
                   r_transaction_count = sql_count (map (\<lambda>(u, t). map_option t_id t) g)\<rparr>"
  let ?rows = "map ?row (group_by ?key ?joined)"
  let ?k = "(u_id u, u_email u)"
  let ?g = "filter (\<lambda>r. ?key r = ?k) ?joined"
  have idle: "(u, None) \<in> set ?joined"
    using assms(2,3) by (rule left_join_idle)
  then have "?k \<in> set (remdups (map ?key ?joined))"
    by force
  then have member: "(?k, ?g) \<in> set (group_by ?key ?joined)"
    by (simp add: group_by_def)
  have "snd x = None" if "x \<in> set ?g" for x
  proof (cases x)
    case (Pair v t)
    show ?thesis
    proof (cases t)
      case None
      then show ?thesis
        using Pair by simp
    next
      case (Some t')
      then have "(v, Some t') \<in> set ?joined"
        using that Pair by simp
      then have "t' \<in> set (transactions (conn_db conn)) \<and> u_id v = t_user_id t'"
        by (rule left_join_matched)
      moreover have "u_id v = u_id u"
        using that Pair by simp
      ultimately show ?thesis
        using assms(3) by auto
    qed
  qed
  then have "\<forall>x \<in> set ?g. snd x = None"
    by blast
  then have "sql_sum (map (\<lambda>(u, t). map_option t_amount t) ?g) = None"
    by (simp add: sql_sum_def non_null_unmatched)
  then have "r_total_amount (?row (?k, ?g)) = None"
    by simp
  moreover have "?row (?k, ?g) \<in> set ?rows"
    unfolding set_map using member by (rule imageI [of _ _ ?row])
  ultimately obtain r where r: "r \<in> set ?rows" and null: "r_total_amount r = None"
    by blast
  let ?sorted = "order_by_desc_nullable r_total_amount ?rows"
  have "map_option uminus (r_total_amount (hd ?sorted)) \<le> map_option uminus (r_total_amount r)"
    unfolding order_by_desc_nullable_def using r by (rule sort_key_hd_least)
  then have "map_option uminus (r_total_amount (hd ?sorted)) \<le> None"
    by (simp only: null option.map)
  then have first_null: "r_total_amount (hd ?sorted) = None"
    by (rule null_least)
  have "r \<in> set ?sorted"
    using r by (simp only: order_by_desc_nullable_def set_sort)
  then obtain y ys where s: "?sorted = y # ys"
    by (cases ?sorted) auto
  have "1 \<le> lmt \<and> lmt \<le> 100"
    using assms(1) by (rule Query_bounded_Inr) simp_all
  then obtain n where n: "nat lmt = Suc n"
    by (cases "nat lmt") auto
  have "sql_top_users_by_volume lmt (conn_db conn) = y # take n ys"
    by (simp add: sql_top_users_by_volume_def sql_limit_def s n)
  moreover have "as_TopUser y = None"
    using first_null by (simp add: s as_TopUser_def)
  ultimately show ?thesis
    using assms(1) by (simp add: top_users_by_volume_def execute_def)
qed

text \<open>
  C1. The claim is that a user without transactions appears with \<open>total_amount\<close> 0 and sorts
  last. The query takes \<open>SUM(t.amount)\<close> over the left join without \<open>COALESCE\<close> (the
  per-user statistics have it): the total of such a user is \<open>NULL\<close>, which sorts first under
  \<open>ORDER BY total_amount DESC\<close>, and the response model rejects the row. In \<open>example_db\<close>,
  \<open>alice\<close> has no transaction and \<open>bob\<close> has a total of 100: the query puts \<open>alice\<close> with a
  \<open>NULL\<close> total above \<open>bob\<close>, and the handler answers with a response validation error in
  place of the list.
\<close>

theorem top_users_idle_user_null_total:
  "sql_top_users_by_volume 10 (conn_db example_conn)
     = [\<lparr>r_user_id = 1, r_email = ''alice@example.com'', r_total_amount = None,
          r_transaction_count = 0\<rparr>,
        \<lparr>r_user_id = 2, r_email = ''bob@example.com'', r_total_amount = Some 100,
          r_transaction_count = 4\<rparr>]
   \<and> fst (top_users_by_volume example_conn None) = Inl ResponseValidationError
   \<and> fst (top_users_by_volume example_conn (Some 1)) = Inl ResponseValidationError"
proof (intro conjI)
  show "sql_top_users_by_volume 10 (conn_db example_conn)
     = [\<lparr>r_user_id = 1, r_email = ''alice@example.com'', r_total_amount = None,
          r_transaction_count = 0\<rparr>,
        \<lparr>r_user_id = 2, r_email = ''bob@example.com'', r_total_amount = Some 100,
          r_transaction_count = 4\<rparr>]"
    by (simp add: sql_top_users_by_volume_def sql_limit_def order_by_desc_nullable_def
        group_by_def left_join_def sql_sum_def sql_count_def non_null_def
        List.map_filter_simps round2_def floor_rat_numeral example_conn_def example_db_def
        alice_def bob_def txn_def)
  have idle: "alice \<in> set (users (conn_db example_conn))"
    "\<forall>t \<in> set (transactions (conn_db example_conn)). t_user_id t \<noteq> u_id alice"
    by (simp_all add: example_conn_def example_db_def alice_def txn_def)
  show "fst (top_users_by_volume example_conn None) = Inl ResponseValidationError"
    by (rule top_users_by_volume_idle_user [OF _ idle]) (simp add: Query_simps)
  show "fst (top_users_by_volume example_conn (Some 1)) = Inl ResponseValidationError"
    by (rule top_users_by_volume_idle_user [OF _ idle]) (simp add: Query_simps)
qed

subsection \<open>Rounding of averages\<close>












section \<open>Suspicious transactions\<close>












end
